theory Spec2Isabelle
  imports Complex_Main
begin

section \<open>Data model of the parcel map component\<close>

text \<open>
  The component \<^verbatim>\<open>OSMParcelMap\<close> keeps its state in React refs and state variables
  and changes it from event handlers. Coordinates, zoom levels and bounds are JavaScript
  numbers; they are taken here as real numbers (finite values, exact arithmetic). What
  the rounding of binary64 arithmetic does to the geometry filter is modelled apart, in
  the section on binary64 arithmetic; infinities and NaN are outside the model.
\<close>

text \<open>A Leaflet \<^verbatim>\<open>LatLng\<close>: the vertices of a drawn ring, read as \<^verbatim>\<open>.lat\<close> and \<^verbatim>\<open>.lng\<close>.\<close>

record LatLng =
  lat :: real
  lng :: real

text \<open>
  The \<^verbatim>\<open>geometry\<close> column is a GeoJSON object or null. The component never looks
  inside it: it only tests it for truthiness and hands it to the renderer.
\<close>

datatype geojson = GeoJSON string

text \<open>
  \<^verbatim>\<open>type ParcelRow = { id, geometry, zoning, usedesc, lat, lon }\<close>. The fields
  \<^verbatim>\<open>id\<close>, \<^verbatim>\<open>lat\<close> and \<^verbatim>\<open>lon\<close> carry the prefix \<open>p_\<close>, because \<open>id\<close> is a
  constant of HOL and \<open>lat\<close> is a field of \<open>LatLng\<close>. A nullable field is an option.
\<close>

record ParcelRow =
  p_id :: int
  geometry :: "geojson option"
  zoning :: "string option"
  usedesc :: "string option"
  p_lat :: "real option"
  p_lon :: "real option"

text \<open>
  What can go wrong in a handler. \<open>TypeError\<close> is JavaScript's error on reading a
  property of null or undefined. Division by zero raises nothing in JavaScript (it yields
  an infinity or NaN); since the reals have neither, a zero divisor is made the error
  \<open>ZeroDivide\<close> of the model, so that the absence of such a division is a property of
  the result.
\<close>

datatype error = TypeError | ZeroDivide

section \<open>Geometry filter: \<^verbatim>\<open>pointInPolygon\<close>\<close>

text \<open>Reading \<^verbatim>\<open>xs[k]\<close>: outside \<open>0 .. length - 1\<close> JavaScript yields undefined.\<close>

definition index :: "'a list \<Rightarrow> int \<Rightarrow> 'a option" where
  "index xs k = (if 0 \<le> k \<and> k < int (length xs) then Some (xs ! nat k) else None)"

text \<open>The divisor \<^verbatim>\<open>((yj - yi) || 1e-12)\<close>: a difference of zero is falsy and is replaced.\<close>

definition denominator :: "real \<Rightarrow> real \<Rightarrow> real" where
  "denominator yi yj = (if yj - yi = 0 then 1 / 10 ^ 12 else yj - yi)"

definition divide_checked :: "real \<Rightarrow> real \<Rightarrow> error + real" where
  "divide_checked a b = (if b = 0 then Inl ZeroDivide else Inr (a / b))"

text \<open>
  The test \<^verbatim>\<open>intersect\<close> of one edge, from vertex \<open>vj\<close> to vertex \<open>vi\<close>. The operator
  \<^verbatim>\<open>&&\<close> evaluates its right operand, and with it the division, only when the left
  one is true. The test point's latitude is written \<open>lat'\<close>, as \<open>lat\<close> is the field.
\<close>

definition intersect :: "real \<Rightarrow> real \<Rightarrow> LatLng \<Rightarrow> LatLng \<Rightarrow> error + bool" where
  "intersect lon lat' vi vj =
     (let xi = lng vi; yi = lat vi; xj = lng vj; yj = lat vj in
      if (yi > lat') \<noteq> (yj > lat') then
        (case divide_checked ((xj - xi) * (lat' - yi)) (denominator yi yj) of
           Inl e \<Rightarrow> Inl e
         | Inr q \<Rightarrow> Inr (lon < q + xi))
      else Inr False)"

text \<open>
  The loop \<^verbatim>\<open>for (let i = 0, j = n - 1; i < n; j = i++)\<close> with the state \<open>inside\<close>.
  Reading a vertex that is not there makes \<^verbatim>\<open>.lng\<close> a \<open>TypeError\<close>.
\<close>

function pointInPolygon_loop ::
  "real \<Rightarrow> real \<Rightarrow> LatLng list \<Rightarrow> int \<Rightarrow> int \<Rightarrow> bool \<Rightarrow> error + bool" where
  "pointInPolygon_loop lon lat' polygonLatLngs i j inside =
     (if i < int (length polygonLatLngs) then
        (case (index polygonLatLngs i, index polygonLatLngs j) of
           (Some vi, Some vj) \<Rightarrow>
             (case intersect lon lat' vi vj of
                Inl e \<Rightarrow> Inl e
              | Inr c \<Rightarrow>
                  pointInPolygon_loop lon lat' polygonLatLngs (i + 1) i
                    (if c then \<not> inside else inside))
         | _ \<Rightarrow> Inl TypeError)
      else Inr inside)"
  by pat_completeness auto
termination
  by (relation "measure (\<lambda>(lon, lat', ring, i, j, inside). nat (int (length ring) - i))") auto

definition pointInPolygon :: "real \<Rightarrow> real \<Rightarrow> LatLng list \<Rightarrow> error + bool" where
  "pointInPolygon lon lat' polygonLatLngs =
     pointInPolygon_loop lon lat' polygonLatLngs 0 (int (length polygonLatLngs) - 1) False"

section \<open>State of the component\<close>

text \<open>
  The view of the Leaflet map the handlers read: \<^verbatim>\<open>getZoom()\<close>, \<^verbatim>\<open>getBounds()\<close>
  with its four sides, and the cursor style of the map's container.
\<close>

record Bounds =
  south :: real
  north :: real
  west :: real
  east :: real

record LeafletMap =
  zoom :: real
  bounds :: Bounds
  cursor :: string

text \<open>
  Leaflet is not part of the repository; of its polygons this is what the component
  relies on. \<^verbatim>\<open>LatLng.equals\<close> takes two points as equal when neither coordinate differs
  by more than \<^verbatim>\<open>1.0E-9\<close>. A polygon holds its points as an array of rings.
  \<^verbatim>\<open>L.polygon(points)\<close> and \<^verbatim>\<open>setLatLngs(points)\<close>, given a flat array of points, pass
  them through \<^verbatim>\<open>_convertLatLngs\<close>, which copies the array and, when there are two
  points or more and the first equals the last, removes the last; the result is the one
  ring of the polygon, which \<^verbatim>\<open>getLatLngs()\<close> returns inside an array.
  A shape is on the map exactly while the ref that holds it is not null: every handler
  calls \<^verbatim>\<open>remove()\<close> on a shape before it drops or overwrites the ref.
\<close>

datatype Polygon = Polygon (getLatLngs: "LatLng list list")

definition latlng_equals :: "LatLng \<Rightarrow> LatLng \<Rightarrow> bool" where
  "latlng_equals a b \<longleftrightarrow> max \<bar>lat a - lat b\<bar> \<bar>lng a - lng b\<bar> \<le> 1 / 10 ^ 9"

definition convertLatLngs :: "LatLng list \<Rightarrow> LatLng list" where
  "convertLatLngs points =
     (if length points \<ge> 2 \<and> latlng_equals (hd points) (last points) then butlast points
      else points)"

definition L_polygon :: "LatLng list \<Rightarrow> Polygon" where
  "L_polygon points = Polygon [convertLatLngs points]"

definition setLatLngs :: "LatLng list \<Rightarrow> Polygon \<Rightarrow> Polygon" where
  "setLatLngs points shape = Polygon [convertLatLngs points]"

text \<open>
  A request to the remote store, as the query builder assembles it:
  \<^verbatim>\<open>from(table).select(columns).gt(..).lt(..).gt(..).lt(..).limit(n)\<close>, and the
  \<^verbatim>\<open>{ data, error }\<close> it resolves to (\<open>error\<close> holds \<^verbatim>\<open>error.message\<close>).
\<close>

datatype Filter = Gt string real | Lt string real

record Query =
  table :: string
  columns :: string
  filters :: "Filter list"
  limit :: nat

record Response =
  data :: "ParcelRow list option"
  error :: "string option"

text \<open>
  The refs and state variables of \<^verbatim>\<open>OSMParcelMap\<close>, under their names.
  \<^item> \<open>parcelsLayerRef\<close> is the layer group, as the list of the geometries drawn in it.
  \<^item> \<open>leafletRef\<close> and \<open>redrawParcelsRef\<close> say whether the ref is set (the Leaflet
    module, the redraw closure).
  \<^item> \<open>drawButtonElRef\<close> is the draw link, if it exists, with whether it carries the
    class \<^verbatim>\<open>leaflet-disabled\<close>.
  \<^item> A state variable holds the value last given to its setter.
  \<^item> \<open>timeout\<close> says whether the debounce timer of \<^verbatim>\<open>moveend\<close> is pending.
  \<^item> \<open>queries\<close> is not a variable of the program: it logs the requests sent to the
    remote store, oldest first.
  \<^item> \<open>listening\<close> says whether \<^verbatim>\<open>init\<close> has registered the handlers of
    \<^verbatim>\<open>moveend\<close> and \<^verbatim>\<open>zoomend\<close>, which it does after \<^verbatim>\<open>await fetchParcelsForView()\<close>;
    \<open>inflight\<close> counts the requests the store has not answered yet. Neither is a
    variable of the program.
  The base layers and \<^verbatim>\<open>viewType\<close> play no part in fetching, drawing or filtering and
  are left out.
\<close>

record state =
  mapRef :: "LeafletMap option"
  parcelsLayerRef :: "geojson list option"
  parcelsRef :: "ParcelRow list"
  leafletRef :: bool
  userPolygonRef :: "Polygon option"
  drawingLayerRef :: "Polygon option"
  drawPointsRef :: "LatLng list"
  isDrawingRef :: bool
  drawButtonElRef :: "bool option"
  showZoomMessageRef :: bool
  hasUserPolygonRef :: bool
  redrawParcelsRef :: bool
  count :: nat
  loading :: bool
  errorMsg :: "string option"
  showZoomMessage :: bool
  isDrawing :: bool
  hasUserPolygon :: bool
  timeout :: bool
  queries :: "Query list"
  listening :: bool
  inflight :: nat

definition FETCH_ZOOM_THRESHOLD :: real where
  "FETCH_ZOOM_THRESHOLD = 16"

definition DRAW_ZOOM_THRESHOLD :: real where
  "DRAW_ZOOM_THRESHOLD = 16"

section \<open>Parcel renderer\<close>

definition updateDrawButtonState :: "state \<Rightarrow> state" where
  "updateDrawButtonState s =
     (case drawButtonElRef s of
        None \<Rightarrow> s
      | Some _ \<Rightarrow>
          s\<lparr>drawButtonElRef :=
              Some (showZoomMessageRef s \<or> hasUserPolygonRef s \<or> isDrawingRef s)\<rparr>)"

text \<open>\<^verbatim>\<open>xs.forEach(f)\<close> where \<open>f\<close> updates a state and may throw: a throw ends the loop.\<close>

fun forEach :: "('s \<Rightarrow> 'a \<Rightarrow> error + 's) \<Rightarrow> 'a list \<Rightarrow> 's \<Rightarrow> error + 's" where
  "forEach f [] s = Inr s"
| "forEach f (x # xs) s = (case f s x of Inl e \<Rightarrow> Inl e | Inr s' \<Rightarrow> forEach f xs s')"

text \<open>The ring \<^verbatim>\<open>filterLatLngs\<close> that \<^verbatim>\<open>redrawParcels\<close> takes from the user's polygon.\<close>

definition filterLatLngs :: "state \<Rightarrow> LatLng list option" where
  "filterLatLngs s =
     (case userPolygonRef s of
        None \<Rightarrow> None
      | Some shape \<Rightarrow>
          (let ll = getLatLngs shape in
           if length ll > 0 then index ll 0 else None))"

text \<open>
  The callback of \<^verbatim>\<open>parcelsRef.current.forEach\<close>, on the contents of the layer group:
  a parcel is passed over when it has no geometry, or when the filter test says so;
  otherwise \<^verbatim>\<open>Lmod.geoJSON(p.geometry, style).addTo(layer)\<close> adds its shape.
\<close>

definition redraw_parcel ::
  "bool \<Rightarrow> LatLng list option \<Rightarrow> geojson list \<Rightarrow> ParcelRow \<Rightarrow> error + geojson list" where
  "redraw_parcel Lmod ring layer p =
     (case geometry p of
        None \<Rightarrow> Inr layer
      | Some g \<Rightarrow>
          (case (case (ring, p_lat p, p_lon p) of
                   (Some r, Some la, Some lo) \<Rightarrow>
                     (case pointInPolygon lo la r of
                        Inl e \<Rightarrow> Inl e
                      | Inr inside \<Rightarrow> Inr (\<not> inside))
                 | _ \<Rightarrow> Inr False) of
             Inl e \<Rightarrow> Inl e
           | Inr skip \<Rightarrow>
               if skip then Inr layer
               else if Lmod then Inr (layer @ [g])
               else Inl TypeError))"

definition redrawParcels :: "bool \<Rightarrow> state \<Rightarrow> error + state" where
  "redrawParcels Lmod s =
     (case (parcelsLayerRef s, mapRef s) of
        (Some _, Some m) \<Rightarrow>
          (let z = zoom m;
               s1 = s\<lparr>parcelsLayerRef := Some []\<rparr>
           in if z < DRAW_ZOOM_THRESHOLD then Inr s1
              else
                (case forEach (redraw_parcel Lmod (filterLatLngs s1)) (parcelsRef s1) [] of
                   Inl e \<Rightarrow> Inl e
                 | Inr layer \<Rightarrow> Inr (s1\<lparr>parcelsLayerRef := Some layer\<rparr>)))
      | _ \<Rightarrow> Inr s)"

section \<open>Viewport fetcher\<close>

text \<open>
  \<^verbatim>\<open>fetchParcelsForView\<close> is asynchronous, with one \<^verbatim>\<open>await\<close>. The part before it
  runs at once: \<open>fetchParcelsForView_issue\<close> returns the state and the query sent, if
  one is. The part after it, with the \<^verbatim>\<open>finally\<close> block, runs when the store has
  answered, on the state of that moment: \<open>fetchParcelsForView_settle\<close>.
\<close>

definition viewport_query :: "Bounds \<Rightarrow> Query" where
  "viewport_query b =
     (let minLat = south b; maxLat = north b; minLon = west b; maxLon = east b in
      \<lparr>table = ''parcel_info3'',
       columns = ''id, geometry, zoning, usedesc, lat, lon'',
       filters = [Gt ''lat'' minLat, Lt ''lat'' maxLat, Gt ''lon'' minLon, Lt ''lon'' maxLon],
       limit = 300\<rparr>)"

definition fetchParcelsForView_issue :: "state \<Rightarrow> error + state \<times> Query option" where
  "fetchParcelsForView_issue s =
     (case mapRef s of
        None \<Rightarrow> Inr (s, None)
      | Some m \<Rightarrow>
          if zoom m < FETCH_ZOOM_THRESHOLD then
            (let s1 = s\<lparr>showZoomMessage := True, showZoomMessageRef := True, parcelsRef := []\<rparr>
             in case parcelsLayerRef s1 of
                  None \<Rightarrow> Inl TypeError
                | Some _ \<Rightarrow>
                    Inr (updateDrawButtonState (s1\<lparr>parcelsLayerRef := Some [], count := 0\<rparr>),
                         None))
          else
            (let s1 = updateDrawButtonState
                        (s\<lparr>showZoomMessage := False, showZoomMessageRef := False\<rparr>)
             in if isDrawingRef s1 then Inr (s1, None)
                else
                  (let s2 = s1\<lparr>loading := True, errorMsg := None\<rparr>;
                       q = viewport_query (bounds m)
                   in Inr (s2\<lparr>queries := queries s2 @ [q]\<rparr>, Some q))))"

definition fetchParcelsForView_settle :: "Response \<Rightarrow> state \<Rightarrow> error + state" where
  "fetchParcelsForView_settle r s =
     (case error r of
        Some message \<Rightarrow>
          (let s1 = s\<lparr>errorMsg := Some message, parcelsRef := []\<rparr>
           in case parcelsLayerRef s1 of
                None \<Rightarrow> Inl TypeError
              | Some _ \<Rightarrow> Inr (s1\<lparr>parcelsLayerRef := Some [], count := 0, loading := False\<rparr>))
      | None \<Rightarrow>
          (let cleaned = filter (\<lambda>p. geometry p \<noteq> None)
                           (case data r of None \<Rightarrow> [] | Some rows \<Rightarrow> rows);
               s1 = s\<lparr>parcelsRef := cleaned, count := length cleaned\<rparr>
           in case redrawParcels (leafletRef s1) s1 of
                Inl e \<Rightarrow> Inl e
              | Inr s2 \<Rightarrow> Inr (s2\<lparr>loading := False\<rparr>)))"

text \<open>
  The whole call when nothing happens between the request and its answer; \<open>remote\<close> is
  the store, answering a query.
\<close>

definition fetchParcelsForView :: "(Query \<Rightarrow> Response) \<Rightarrow> state \<Rightarrow> error + state" where
  "fetchParcelsForView remote s =
     (case fetchParcelsForView_issue s of
        Inl e \<Rightarrow> Inl e
      | Inr (s1, None) \<Rightarrow> Inr s1
      | Inr (s1, Some q) \<Rightarrow> fetchParcelsForView_settle (remote q) s1)"

section \<open>Polygon draw controller\<close>

definition finishDrawing :: "state \<Rightarrow> error + state" where
  "finishDrawing s =
     (case mapRef s of
        None \<Rightarrow> Inr s
      | Some mapLocal \<Rightarrow>
          if \<not> isDrawingRef s \<or> \<not> leafletRef s then Inr s
          else
            (let s1 = updateDrawButtonState
                        (s\<lparr>isDrawingRef := False, isDrawing := False,
                           mapRef := Some (mapLocal\<lparr>cursor := []\<rparr>)\<rparr>)
             in if length (drawPointsRef s1) < 3 then
                  Inr (s1\<lparr>drawingLayerRef := None, drawPointsRef := []\<rparr>)
                else
                  (let finalPoints =
                         (if length (drawPointsRef s1) > 4 then take 4 (drawPointsRef s1)
                          else drawPointsRef s1);
                       s2 = updateDrawButtonState
                              (s1\<lparr>userPolygonRef := Some (L_polygon finalPoints),
                                  hasUserPolygon := True, hasUserPolygonRef := True\<rparr>);
                       s3 = s2\<lparr>drawingLayerRef := None, drawPointsRef := []\<rparr>
                   in redrawParcels True s3)))"

definition startDrawing :: "state \<Rightarrow> state" where
  "startDrawing s =
     (if showZoomMessageRef s \<or> hasUserPolygonRef s \<or> isDrawingRef s then s
      else
        (case mapRef s of
           None \<Rightarrow> s
         | Some m \<Rightarrow>
             updateDrawButtonState
               (s\<lparr>isDrawingRef := True, isDrawing := True,
                  mapRef := Some (m\<lparr>cursor := ''crosshair''\<rparr>),
                  drawPointsRef := [], drawingLayerRef := None\<rparr>)))"

section \<open>Map shell: the handlers of the map's events\<close>

text \<open>
  The handlers are registered on the map once it exists and is stored in \<open>mapRef\<close>;
  their variable \<^verbatim>\<open>map\<close> is that object. With no map there is no event, and the
  handlers that read \<^verbatim>\<open>map\<close> leave the state as it is.
\<close>

definition on_click :: "LatLng \<Rightarrow> state \<Rightarrow> error + state" where
  "on_click latlng s =
     (if \<not> isDrawingRef s \<or> \<not> leafletRef s then Inr s
      else
        (let points = drawPointsRef s @ [latlng];
             s1 = s\<lparr>drawPointsRef := points,
                    drawingLayerRef :=
                      (case drawingLayerRef s of
                         Some shape \<Rightarrow> Some (setLatLngs points shape)
                       | None \<Rightarrow> Some (L_polygon points))\<rparr>
         in if length (drawPointsRef s1) \<ge> 4 then finishDrawing s1 else Inr s1))"

definition on_dblclick :: "state \<Rightarrow> error + state" where
  "on_dblclick s = (if isDrawingRef s then finishDrawing s else Inr s)"

text \<open>
  \<^verbatim>\<open>moveend\<close> clears the pending timer and sets a new one; when the timer fires,
  \<^verbatim>\<open>fetchParcelsForView\<close> starts.
\<close>

definition on_moveend :: "state \<Rightarrow> state" where
  "on_moveend s = s\<lparr>timeout := True\<rparr>"

definition on_timeout :: "state \<Rightarrow> error + state \<times> Query option" where
  "on_timeout s = fetchParcelsForView_issue (s\<lparr>timeout := False\<rparr>)"

definition on_zoomend :: "state \<Rightarrow> error + state \<times> Query option" where
  "on_zoomend s =
     (case mapRef s of
        None \<Rightarrow> Inr (s, None)
      | Some m \<Rightarrow>
          (let z = zoom m;
               show = z < FETCH_ZOOM_THRESHOLD;
               s1 = updateDrawButtonState
                      (s\<lparr>showZoomMessage := show, showZoomMessageRef := show\<rparr>)
           in if \<not> show then fetchParcelsForView_issue s1
              else
                Inr (case parcelsLayerRef s1 of
                       None \<Rightarrow> s1
                     | Some _ \<Rightarrow> s1\<lparr>parcelsLayerRef := Some []\<rparr>,
                     None)))"

definition handleDeletePolygon :: "state \<Rightarrow> error + state" where
  "handleDeletePolygon s =
     (case mapRef s of
        None \<Rightarrow> Inr s
      | Some _ \<Rightarrow>
          (let s1 = s\<lparr>userPolygonRef := None, drawingLayerRef := None, drawPointsRef := [],
                      isDrawingRef := False, isDrawing := False,
                      hasUserPolygon := False, hasUserPolygonRef := False\<rparr>
           in case (if redrawParcelsRef s1 \<and> leafletRef s1 then redrawParcels True s1
                    else Inr s1) of
                Inl e \<Rightarrow> Inl e
              | Inr s2 \<Rightarrow>
                  Inr (case drawButtonElRef s2 of
                         None \<Rightarrow> s2
                       | Some _ \<Rightarrow> s2\<lparr>drawButtonElRef := Some False\<rparr>)))"

section \<open>The component as a transition system\<close>

text \<open>
  The state when \<^verbatim>\<open>init\<close> has built the map, the parcel layer and the draw control,
  has registered the handlers of \<^verbatim>\<open>click\<close> and \<^verbatim>\<open>dblclick\<close>, and is about to
  start the first fetch: \<^verbatim>\<open>setView(ORIGIN, 16)\<close> gives zoom 16, and the bounds \<open>b\<close> are
  those of the container. Every ref and state variable has its initial value;
  \<^verbatim>\<open>onAdd\<close> has created the draw link and enabled it.
\<close>

definition mounted :: "Bounds \<Rightarrow> state" where
  "mounted b =
     \<lparr>mapRef = Some \<lparr>zoom = 16, bounds = b, cursor = []\<rparr>,
      parcelsLayerRef = Some [],
      parcelsRef = [],
      leafletRef = True,
      userPolygonRef = None,
      drawingLayerRef = None,
      drawPointsRef = [],
      isDrawingRef = False,
      drawButtonElRef = Some False,
      showZoomMessageRef = False,
      hasUserPolygonRef = False,
      redrawParcelsRef = True,
      count = 0,
      loading = False,
      errorMsg = None,
      showZoomMessage = False,
      isDrawing = False,
      hasUserPolygon = False,
      timeout = False,
      queries = [],
      listening = False,
      inflight = 0\<rparr>"

text \<open>The user pans or zooms: Leaflet moves the view, before it fires its events.\<close>

definition set_view :: "real \<Rightarrow> Bounds \<Rightarrow> state \<Rightarrow> state" where
  "set_view z b s = s\<lparr>mapRef := map_option (\<lambda>m. m\<lparr>zoom := z, bounds := b\<rparr>) (mapRef s)\<rparr>"

text \<open>
  What can happen to the mounted component: the map's events, a click on the draw link
  or on the delete button (which is rendered only while \<open>hasUserPolygon\<close> holds), the
  debounce timer firing if it is pending, and the answer of the store to a request that
  is in flight.
\<close>

datatype event =
    Click LatLng
  | DblClick
  | DrawLinkClick
  | MoveEnd
  | Timeout
  | ZoomEnd
  | DeleteClick
  | Settled Response
  | ViewChanged real Bounds

text \<open>A call of \<^verbatim>\<open>fetchParcelsForView\<close> that has sent a request leaves it in flight.\<close>

definition sent :: "state \<times> Query option \<Rightarrow> state" where
  "sent r = (case r of (s, None) \<Rightarrow> s | (s, Some _) \<Rightarrow> s\<lparr>inflight := Suc (inflight s)\<rparr>)"

text \<open>
  The handlers of \<^verbatim>\<open>moveend\<close> and \<^verbatim>\<open>zoomend\<close> run only once they are registered;
  before that the events pass unnoticed. The first answer of the store is the one that
  \<^verbatim>\<open>init\<close> awaits: no other request can have been sent, since only these two handlers
  send one. When its continuation has run, \<^verbatim>\<open>init\<close> goes on and registers them.
\<close>

fun fire :: "event \<Rightarrow> state \<Rightarrow> error + state" where
  "fire (Click latlng) s = on_click latlng s"
| "fire DblClick s = on_dblclick s"
| "fire DrawLinkClick s = Inr (startDrawing s)"
| "fire MoveEnd s = (if listening s then Inr (on_moveend s) else Inr s)"
| "fire Timeout s = (if timeout s then map_sum id sent (on_timeout s) else Inr s)"
| "fire ZoomEnd s = (if listening s then map_sum id sent (on_zoomend s) else Inr s)"
| "fire DeleteClick s = (if hasUserPolygon s then handleDeletePolygon s else Inr s)"
| "fire (Settled r) s =
     (if inflight s = 0 then Inr s
      else
        (case fetchParcelsForView_settle r (s\<lparr>inflight := inflight s - 1\<rparr>) of
           Inl e \<Rightarrow> Inl e
         | Inr s' \<Rightarrow> Inr (s'\<lparr>listening := True\<rparr>)))"
| "fire (ViewChanged z b) s = Inr (set_view z b s)"

text \<open>
  The states the component can be in: the one after the first fetch has started (had it
  sent no request, \<^verbatim>\<open>init\<close> would register the two handlers at once), and every state
  an event leads to. An answer may have any contents.
\<close>

inductive reachable :: "state \<Rightarrow> bool" where
  start: "fetchParcelsForView_issue (mounted b) = Inr (s, q) \<Longrightarrow>
          reachable ((sent (s, q))\<lparr>listening := (q = None)\<rparr>)"
| step: "reachable s \<Longrightarrow> fire e s = Inr s' \<Longrightarrow> reachable s'"

text \<open>What holds in every such state.\<close>

definition refs_set :: "state \<Rightarrow> bool" where
  "refs_set s \<longleftrightarrow>
     mapRef s \<noteq> None \<and> parcelsLayerRef s \<noteq> None \<and> leafletRef s \<and> redrawParcelsRef s
     \<and> drawButtonElRef s \<noteq> None"

definition polygon_ok :: "state \<Rightarrow> bool" where
  "polygon_ok s =
     (case userPolygonRef s of
        None \<Rightarrow> True
      | Some shape \<Rightarrow>
          (case getLatLngs shape of
             [ring] \<Rightarrow> 2 \<le> length ring \<and> length ring \<le> 4
           | _ \<Rightarrow> False))"

definition invariant :: "state \<Rightarrow> bool" where
  "invariant s \<longleftrightarrow>
     refs_set s \<and> count s = length (parcelsRef s) \<and> polygon_ok s
     \<and> length (drawPointsRef s) < 4"

section \<open>The geometry filter in binary64 arithmetic\<close>

text \<open>
  JavaScript numbers are IEEE 754 binary64 values, and every arithmetic operation yields
  the exact result rounded to the nearest such value, a tie going to the one whose last
  bit is even. This section writes the rounding out and repeats the edge test and the loop
  of \<^verbatim>\<open>pointInPolygon\<close> with the rounding applied after each operation.

  The integer nearest to a real, a tie going to the even one.
\<close>

definition round_to_even :: "real \<Rightarrow> int" where
  "round_to_even x =
     (let n = \<lfloor>x\<rfloor>; r = x - of_int n in
      if r < 1 / 2 then n
      else if 1 / 2 < r then n + 1
      else if even n then n else n + 1)"

text \<open>
  The exponent of the binade of a magnitude \<open>a\<close>: the largest \<open>e\<close> with \<open>2 ^ e \<le> a\<close>, found
  by going up from the least exponent \<open>-1022\<close> of a normal number and not beyond the
  greatest, \<open>1023\<close>. A magnitude below \<open>2 ^ -1022\<close> gets \<open>-1022\<close>: there the values are the
  subnormal ones, with the spacing of the lowest binade.
\<close>

fun find_exponent :: "nat \<Rightarrow> int \<Rightarrow> real \<Rightarrow> int" where
  "find_exponent 0 e a = e"
| "find_exponent (Suc n) e a = (if 2 powi (e + 1) \<le> a then find_exponent n (e + 1) a else e)"

definition exponent :: "real \<Rightarrow> int" where
  "exponent x = find_exponent 2045 (- 1022) \<bar>x\<bar>"

text \<open>
  Rounding to binary64: the values with exponent \<open>e\<close> are the multiples of \<open>2 ^ (e - 52)\<close>,
  and \<open>x\<close> goes to the nearest of them. Overflow is left out: a result beyond the largest
  finite value is rounded on the spacing of the top binade and not made an infinity. The
  coordinates of a map are far from that range.
\<close>

definition double :: "real \<Rightarrow> real" where
  "double x = of_int (round_to_even (x / 2 powi (exponent x - 52))) * 2 powi (exponent x - 52)"

text \<open>
  The edge test and the loop once more, with a rounding \<open>fl\<close> after every subtraction,
  multiplication, division and addition, in the order in which the expression
  \<^verbatim>\<open>((xj - xi) * (lat - yi)) / ((yj - yi) || 1e-12) + xi\<close> is evaluated. The literal
  \<^verbatim>\<open>1e-12\<close> is the rounded value of its decimal. With the identity for \<open>fl\<close> these are
  \<open>intersect\<close> and \<open>pointInPolygon\<close> of the section on the geometry filter.
\<close>

definition intersect_rounded ::
  "(real \<Rightarrow> real) \<Rightarrow> real \<Rightarrow> real \<Rightarrow> LatLng \<Rightarrow> LatLng \<Rightarrow> error + bool" where
  "intersect_rounded fl lon lat' vi vj =
     (let xi = lng vi; yi = lat vi; xj = lng vj; yj = lat vj in
      if (yi > lat') \<noteq> (yj > lat') then
        (case divide_checked (fl (fl (xj - xi) * fl (lat' - yi)))
                (if fl (yj - yi) = 0 then fl (1 / 10 ^ 12) else fl (yj - yi)) of
           Inl e \<Rightarrow> Inl e
         | Inr q \<Rightarrow> Inr (lon < fl (fl q + xi)))
      else Inr False)"

function pointInPolygon_rounded_loop ::
  "(real \<Rightarrow> real) \<Rightarrow> real \<Rightarrow> real \<Rightarrow> LatLng list \<Rightarrow> int \<Rightarrow> int \<Rightarrow> bool \<Rightarrow> error + bool" where
  "pointInPolygon_rounded_loop fl lon lat' polygonLatLngs i j inside =
     (if i < int (length polygonLatLngs) then
        (case (index polygonLatLngs i, index polygonLatLngs j) of
           (Some vi, Some vj) \<Rightarrow>
             (case intersect_rounded fl lon lat' vi vj of
                Inl e \<Rightarrow> Inl e
              | Inr c \<Rightarrow>
                  pointInPolygon_rounded_loop fl lon lat' polygonLatLngs (i + 1) i
                    (if c then \<not> inside else inside))
         | _ \<Rightarrow> Inl TypeError)
      else Inr inside)"
  by pat_completeness auto
termination
  by (relation "measure (\<lambda>(fl, lon, lat', ring, i, j, inside). nat (int (length ring) - i))") auto

definition pointInPolygon_rounded ::
  "(real \<Rightarrow> real) \<Rightarrow> real \<Rightarrow> real \<Rightarrow> LatLng list \<Rightarrow> error + bool" where
  "pointInPolygon_rounded fl lon lat' polygonLatLngs =
     pointInPolygon_rounded_loop fl lon lat' polygonLatLngs 0
       (int (length polygonLatLngs) - 1) False"

section \<open>Notions used in the statements\<close>

text \<open>
  The test that makes \<^verbatim>\<open>redrawParcels\<close> pass over a parcel with a geometry: there is a
  filter ring, the parcel has both centroid coordinates, and \<^verbatim>\<open>pointInPolygon\<close> returns
  false for them.
\<close>

abbreviation centroid_fails :: "LatLng list option \<Rightarrow> ParcelRow \<Rightarrow> bool" where
  "centroid_fails ring p \<equiv>
     (case (ring, p_lat p, p_lon p) of
        (Some r, Some la, Some lo) \<Rightarrow> pointInPolygon lo la r = Inr False
      | _ \<Rightarrow> False)"

text \<open>
  What the remote store does with a filter. The store is not part of the repository; of
  its query language this is the part the request uses: \<^verbatim>\<open>gt\<close> and \<^verbatim>\<open>lt\<close> compare a
  numeric column strictly with a value, and a null column satisfies neither.
\<close>

definition column_value :: "string \<Rightarrow> ParcelRow \<Rightarrow> real option" where
  "column_value c p =
     (if c = ''lat'' then p_lat p
      else if c = ''lon'' then p_lon p
      else if c = ''id'' then Some (real_of_int (p_id p))
      else None)"

fun satisfies :: "ParcelRow \<Rightarrow> Filter \<Rightarrow> bool" where
  "satisfies p (Gt c v) = (case column_value c p of None \<Rightarrow> False | Some x \<Rightarrow> x > v)"
| "satisfies p (Lt c v) = (case column_value c p of None \<Rightarrow> False | Some x \<Rightarrow> x < v)"

text \<open>
  The state right after \<^verbatim>\<open>init\<close> has started the first fetch, with its request in
  flight, and the state an event leads to (the state is kept if the handler throws).
\<close>

definition started :: "Bounds \<Rightarrow> state" where
  "started b = (mounted b)\<lparr>loading := True, queries := [viewport_query b], inflight := 1\<rparr>"

definition after :: "event \<Rightarrow> state \<Rightarrow> state" where
  "after e s = (case fire e s of Inl _ \<Rightarrow> s | Inr s' \<Rightarrow> s')"

text \<open>
  The texts of the elements the component returns, in document order: the advisory when
  \<open>showZoomMessage\<close> holds, the delete button when \<open>hasUserPolygon\<close> holds, and the
  panel of the base layer. The block under the comment \<^verbatim>\<open>Status\<close> is empty: the state
  variables \<open>errorMsg\<close>, \<open>count\<close> and \<open>loading\<close> occur in no element. What Leaflet
  draws inside the map container (tiles, attribution, the draw link with its title) is
  set up by \<^verbatim>\<open>init\<close> and is not listed; the parcel layer is \<open>parcelsLayerRef\<close>.
\<close>

definition rendered_text :: "state \<Rightarrow> string list" where
  "rendered_text s =
     (if showZoomMessage s then [''Zoom in to view parcel boundaries''] else [])
     @ (if hasUserPolygon s then [''Delete polygon''] else [])
     @ [''Map controls'', ''Base layer'', ''Street'', ''Satellite'']"

text \<open>
  On which side of the line from \<open>a\<close> to \<open>b\<close> a point lies (the sign of the cross product),
  and the interior of a triangle: the points that lie strictly on the same side of its
  three edges, taken in order.
\<close>

definition orient :: "LatLng \<Rightarrow> LatLng \<Rightarrow> real \<Rightarrow> real \<Rightarrow> real" where
  "orient a b lon lat' = (lng b - lng a) * (lat' - lat a) - (lat b - lat a) * (lon - lng a)"

definition strictly_inside_triangle :: "real \<Rightarrow> real \<Rightarrow> LatLng list \<Rightarrow> bool" where
  "strictly_inside_triangle lon lat' ring =
     (case ring of
        [a, b, c] \<Rightarrow>
          0 < orient a b lon lat' \<and> 0 < orient b c lon lat' \<and> 0 < orient c a lon lat'
          \<or> orient a b lon lat' < 0 \<and> orient b c lon lat' < 0 \<and> orient c a lon lat' < 0
      | _ \<Rightarrow> False)"

text \<open>
  The exterior: the points that lie strictly on different sides of two of the edges. For
  a triangle that is not degenerate these are the points that are neither inside nor on
  an edge (lemma \<open>strictly_outside_triangle_iff\<close>).
\<close>

definition strictly_outside_triangle :: "real \<Rightarrow> real \<Rightarrow> LatLng list \<Rightarrow> bool" where
  "strictly_outside_triangle lon lat' ring =
     (case ring of
        [a, b, c] \<Rightarrow>
          (orient a b lon lat' < 0 \<or> orient b c lon lat' < 0 \<or> orient c a lon lat' < 0)
          \<and> (0 < orient a b lon lat' \<or> 0 < orient b c lon lat' \<or> 0 < orient c a lon lat')
      | _ \<Rightarrow> False)"

section \<open>Example inputs\<close>

text \<open>
  A viewport, a drawn square with a parcel centroid inside and one outside, rows as the
  store may return them (one without geometry, one without centroid), a store that
  answers with these rows and one that fails.
\<close>

definition example_bounds :: Bounds where
  "example_bounds = \<lparr>south = 30, north = 36, west = -115, east = -110\<rparr>"

definition example_map :: "real \<Rightarrow> LeafletMap" where
  "example_map z = \<lparr>zoom = z, bounds = example_bounds, cursor = []\<rparr>"

definition example_ring :: "LatLng list" where
  "example_ring =
     [\<lparr>lat = 32, lng = -114\<rparr>, \<lparr>lat = 32, lng = -112\<rparr>,
      \<lparr>lat = 34, lng = -112\<rparr>, \<lparr>lat = 34, lng = -114\<rparr>]"

definition example_points :: "LatLng list" where
  "example_points = [\<lparr>lat = 32, lng = -114\<rparr>, \<lparr>lat = 32, lng = -112\<rparr>, \<lparr>lat = 34, lng = -112\<rparr>]"

definition example_rows :: "ParcelRow list" where
  "example_rows =
     [\<lparr>p_id = 1, geometry = Some (GeoJSON ''a''), zoning = None, usedesc = None,
       p_lat = Some 33, p_lon = Some (-113)\<rparr>,
      \<lparr>p_id = 2, geometry = None, zoning = Some ''R-1'', usedesc = None,
       p_lat = Some 33, p_lon = Some (-113)\<rparr>,
      \<lparr>p_id = 3, geometry = Some (GeoJSON ''c''), zoning = None, usedesc = None,
       p_lat = Some 33, p_lon = Some (-111)\<rparr>,
      \<lparr>p_id = 4, geometry = Some (GeoJSON ''d''), zoning = None, usedesc = None,
       p_lat = None, p_lon = None\<rparr>]"

definition example_remote :: "Query \<Rightarrow> Response" where
  "example_remote q = \<lparr>data = Some example_rows, error = None\<rparr>"

definition failing_remote :: "Query \<Rightarrow> Response" where
  "failing_remote q = \<lparr>data = None, error = Some ''timeout''\<rparr>"

text \<open>
  States of the component: zoomed in with a finalized filter polygon and a stale layer,
  after the first load; the same zoomed out; in the middle of drawing; and the state after
  the draw link, three clicks and a double click.
\<close>

definition example_state :: state where
  "example_state =
     (mounted example_bounds)
       \<lparr>mapRef := Some \<lparr>zoom = 17, bounds = example_bounds, cursor = []\<rparr>,
        parcelsLayerRef := Some [GeoJSON ''z''],
        parcelsRef := example_rows,
        userPolygonRef := Some (L_polygon example_ring),
        hasUserPolygonRef := True,
        count := 4,
        hasUserPolygon := True,
        listening := True\<rparr>"

definition zoomed_out_state :: state where
  "zoomed_out_state = example_state\<lparr>mapRef := Some (example_map 14)\<rparr>"

definition drawing_state :: "LatLng list \<Rightarrow> state" where
  "drawing_state points =
     (mounted example_bounds)
       \<lparr>mapRef := Some \<lparr>zoom = 17, bounds = example_bounds, cursor = ''crosshair''\<rparr>,
        parcelsLayerRef := Some [GeoJSON ''a'', GeoJSON ''c'', GeoJSON ''d''],
        parcelsRef := filter (\<lambda>p. geometry p \<noteq> None) example_rows,
        drawingLayerRef := (if points = [] then None else Some (L_polygon points)),
        drawPointsRef := points,
        isDrawingRef := True,
        drawButtonElRef := Some True,
        count := 3,
        isDrawing := True\<rparr>"

definition drawn_state :: state where
  "drawn_state =
     after DblClick
       (after (Click \<lparr>lat = 34, lng = -112\<rparr>)
          (after (Click \<lparr>lat = 32, lng = -112\<rparr>)
             (after (Click \<lparr>lat = 32, lng = -114\<rparr>)
                (after DrawLinkClick (started example_bounds)))))"




text \<open>
  A triangle with its apex at the origin, and the binary64 value nearest to one third
  (\<^verbatim>\<open>0.3333333333333333\<close>), which is smaller than one third.
\<close>

definition example_triangle :: "LatLng list" where
  "example_triangle = [\<lparr>lat = 3, lng = 1\<rparr>, \<lparr>lat = 0, lng = 0\<rparr>, \<lparr>lat = 3, lng = -1\<rparr>]"

definition example_lon :: real where
  "example_lon = 6004799503160661 / 2 ^ 54"

section \<open>Properties of the geometry filter\<close>

lemma denominator_nonzero: "denominator yi yj \<noteq> 0"
  by (simp add: denominator_def)

lemma intersect_total: "\<exists>c. intersect lon lat' vi vj = Inr c"
  by (auto simp: intersect_def divide_checked_def denominator_nonzero Let_def)

text \<open>
  The substitute is never the divisor of a division that is carried out: the division is
  reached only when the two latitudes lie on different sides of the test point, and then
  they differ.
\<close>

lemma intersect_eq:
  "intersect lon lat' vi vj =
     Inr ((lat vi > lat') \<noteq> (lat vj > lat')
          \<and> lon < (lng vj - lng vi) * (lat' - lat vi) / (lat vj - lat vi) + lng vi)"
  by (auto simp: intersect_def divide_checked_def denominator_def Let_def)

lemma pointInPolygon_loop_total:
  "0 \<le> i \<Longrightarrow> (i < int (length ring) \<longrightarrow> 0 \<le> j \<and> j < int (length ring)) \<Longrightarrow>
   \<exists>b. pointInPolygon_loop lon lat' ring i j inside = Inr b"
proof (induction lon lat' ring i j inside rule: pointInPolygon_loop.induct)
  case (1 lon lat' ring i j inside)
  show ?case
  proof (cases "i < int (length ring)")
    case False
    then show ?thesis by simp
  next
    case True
    with "1.prems" have rd: "index ring i = Some (ring ! nat i)" "index ring j = Some (ring ! nat j)"
      by (simp_all add: index_def)
    obtain c where c: "intersect lon lat' (ring ! nat i) (ring ! nat j) = Inr c"
      using intersect_total by blast
    have "\<exists>b. pointInPolygon_loop lon lat' ring (i + 1) i (if c then \<not> inside else inside) = Inr b"
      using "1.IH" [OF True refl rd(1) rd(2) c] "1.prems" True by simp
    then show ?thesis
      using True rd c by (subst pointInPolygon_loop.simps) simp
  qed
qed

lemma pointInPolygon_total: "\<exists>b. pointInPolygon lon lat' ring = Inr b"
  unfolding pointInPolygon_def
  by (rule pointInPolygon_loop_total) auto

text \<open>For an empty ring the loop ends at once, with \<open>inside\<close> still false.\<close>

lemma pointInPolygon_empty: "pointInPolygon lon lat' [] = Inr False"
  by (simp add: pointInPolygon_def)

text \<open>
  Claim C9. For every ring and every test point \<^verbatim>\<open>pointInPolygon\<close> returns, and it returns
  exactly one boolean: the loop is a total function (its recursion is shown to end, the
  distance of \<open>i\<close> to the length of the ring shrinking with every turn), no vertex is read out
  of range and no division has a zero divisor, either of which would make the result an
  error. The divisor of an edge is never zero; for two equal latitudes it is the
  substitute \<^verbatim>\<open>1e-12\<close>, and such an edge counts as no crossing.
\<close>

theorem pointInPolygon_safe:
  "(\<exists>!b. pointInPolygon lon lat' ring = Inr b)
   \<and> denominator yi yj \<noteq> 0
   \<and> denominator y y = 1 / 10 ^ 12
   \<and> intersect lon lat' \<lparr>lat = y, lng = xi\<rparr> \<lparr>lat = y, lng = xj\<rparr> = Inr False"
proof (intro conjI)
  obtain b where "pointInPolygon lon lat' ring = Inr b"
    using pointInPolygon_total by blast
  then show "\<exists>!b. pointInPolygon lon lat' ring = Inr b"
    by auto
  show "denominator yi yj \<noteq> 0"
    by (rule denominator_nonzero)
  show "denominator y y = 1 / 10 ^ 12"
    by (simp add: denominator_def)
  show "intersect lon lat' \<lparr>lat = y, lng = xi\<rparr> \<lparr>lat = y, lng = xj\<rparr> = Inr False"
    by (simp add: intersect_def)
qed

section \<open>The geometry filter on triangles, in exact arithmetic\<close>

text \<open>
  An edge is counted when its ends lie on different sides of the latitude of the point
  (the lower end may be on it) and the point is on the side of the edge from which the
  ray towards greater longitudes meets it.
\<close>

lemma intersect_orient:
  "intersect lon lat' vi vj =
     Inr (lat vi \<le> lat' \<and> lat' < lat vj \<and> 0 < orient vi vj lon lat'
          \<or> lat vj \<le> lat' \<and> lat' < lat vi \<and> orient vi vj lon lat' < 0)"
proof -
  have up: "lon < (lng vj - lng vi) * (lat' - lat vi) / (lat vj - lat vi) + lng vi
              \<longleftrightarrow> 0 < orient vi vj lon lat'" if "lat vi < lat vj"
  proof -
    have "lon < (lng vj - lng vi) * (lat' - lat vi) / (lat vj - lat vi) + lng vi
            \<longleftrightarrow> lon - lng vi < (lng vj - lng vi) * (lat' - lat vi) / (lat vj - lat vi)"
      by linarith
    also have "\<dots> \<longleftrightarrow> (lon - lng vi) * (lat vj - lat vi) < (lng vj - lng vi) * (lat' - lat vi)"
      using that by (simp add: pos_less_divide_eq)
    also have "\<dots> \<longleftrightarrow> 0 < orient vi vj lon lat'"
      by (simp add: orient_def algebra_simps)
    finally show ?thesis .
  qed
  have down: "lon < (lng vj - lng vi) * (lat' - lat vi) / (lat vj - lat vi) + lng vi
              \<longleftrightarrow> orient vi vj lon lat' < 0" if "lat vj < lat vi"
  proof -
    have "lon < (lng vj - lng vi) * (lat' - lat vi) / (lat vj - lat vi) + lng vi
            \<longleftrightarrow> lon - lng vi < (lng vj - lng vi) * (lat' - lat vi) / (lat vj - lat vi)"
      by linarith
    also have "\<dots> \<longleftrightarrow> (lng vj - lng vi) * (lat' - lat vi) < (lon - lng vi) * (lat vj - lat vi)"
      using that by (simp add: neg_less_divide_eq)
    also have "\<dots> \<longleftrightarrow> orient vi vj lon lat' < 0"
      by (simp add: orient_def algebra_simps)
    finally show ?thesis .
  qed
  show ?thesis
    unfolding intersect_eq using up down by auto
qed

lemma orient_flip: "orient b a lon lat' = - orient a b lon lat'"
  by (simp add: orient_def algebra_simps)

text \<open>
  The three orientations of a point are its barycentric weights: they sum to the
  orientation of the triangle, and the weighted vertices sum to the point.
\<close>

lemma orient_weights:
  "orient b c lon lat' * (lat a - lat') + orient c a lon lat' * (lat b - lat')
     + orient a b lon lat' * (lat c - lat') = 0"
  by (simp add: orient_def algebra_simps)

lemma orient_sum:
  "orient a b lon lat' + orient b c lon lat' + orient c a lon lat' = orient a b (lng c) (lat c)"
  by (simp add: orient_def algebra_simps)

lemma strictly_outside_triangle_iff:
  "0 < orient a b (lng c) (lat c) \<Longrightarrow>
     strictly_outside_triangle lon lat' [a, b, c] \<longleftrightarrow>
       orient a b lon lat' < 0 \<or> orient b c lon lat' < 0 \<or> orient c a lon lat' < 0"
  "orient a b (lng c) (lat c) < 0 \<Longrightarrow>
     strictly_outside_triangle lon lat' [a, b, c] \<longleftrightarrow>
       0 < orient a b lon lat' \<or> 0 < orient b c lon lat' \<or> 0 < orient c a lon lat'"
  using orient_sum [of a b lon lat' c]
  by (auto simp: strictly_outside_triangle_def)

lemma pointInPolygon_triangle:
  "pointInPolygon lon lat' [a, b, c] =
     Inr (((lat a \<le> lat' \<and> lat' < lat c \<and> 0 < orient a c lon lat'
            \<or> lat c \<le> lat' \<and> lat' < lat a \<and> orient a c lon lat' < 0)
           \<noteq> (lat b \<le> lat' \<and> lat' < lat a \<and> 0 < orient b a lon lat'
            \<or> lat a \<le> lat' \<and> lat' < lat b \<and> orient b a lon lat' < 0))
          \<noteq> (lat c \<le> lat' \<and> lat' < lat b \<and> 0 < orient c b lon lat'
            \<or> lat b \<le> lat' \<and> lat' < lat c \<and> orient c b lon lat' < 0))"
  by (simp add: pointInPolygon_def index_def intersect_orient)

text \<open>
  In exact arithmetic \<^verbatim>\<open>pointInPolygon\<close> is right on every triangle: true for every
  point strictly inside. The latitudes of the vertices cannot all lie above the point's
  or all at most at it, so the boundary has one edge going up and one going down through
  the latitude of the point, and exactly one of them is to the right.
\<close>

lemma pointInPolygon_triangle_inside:
  assumes "strictly_inside_triangle lon lat' [a, b, c]"
  shows "pointInPolygon lon lat' [a, b, c] = Inr True"
proof -
  let ?ab = "orient a b lon lat'" and ?bc = "orient b c lon lat'" and ?ca = "orient c a lon lat'"
  have f: "orient a c lon lat' = - ?ca" "orient b a lon lat' = - ?ab" "orient c b lon lat' = - ?bc"
    by (rule orient_flip)+
  have w: "?bc * (lat a - lat') + ?ca * (lat b - lat') + ?ab * (lat c - lat') = 0"
    by (rule orient_weights)
  from assms consider
      (pos) "0 < ?ab" "0 < ?bc" "0 < ?ca"
    | (neg) "?ab < 0" "?bc < 0" "?ca < 0"
    by (auto simp: strictly_inside_triangle_def)
  then show ?thesis
  proof cases
    case pos
    have above: "\<not> (lat' < lat a \<and> lat' < lat b \<and> lat' < lat c)"
    proof
      assume h: "lat' < lat a \<and> lat' < lat b \<and> lat' < lat c"
      then have "0 < ?bc * (lat a - lat')" "0 < ?ca * (lat b - lat')" "0 < ?ab * (lat c - lat')"
        using pos by simp_all
      with w show False by linarith
    qed
    have below: "\<not> (lat a \<le> lat' \<and> lat b \<le> lat' \<and> lat c \<le> lat')"
    proof
      assume h: "lat a \<le> lat' \<and> lat b \<le> lat' \<and> lat c \<le> lat'"
      then have t: "?bc * (lat a - lat') \<le> 0" "?ca * (lat b - lat') \<le> 0"
        "?ab * (lat c - lat') \<le> 0"
        using pos by (simp_all add: mult_le_0_iff)
      with w have "?bc * (lat a - lat') = 0" "?ab * (lat c - lat') = 0"
        by linarith+
      with pos have "lat a = lat'" "lat c = lat'"
        by simp_all
      moreover from t w have "?ca * (lat b - lat') = 0"
        by linarith
      with pos have "lat b = lat'"
        by simp
      ultimately have "?ab = 0"
        by (simp add: orient_def)
      with pos show False by simp
    qed
    show ?thesis
      unfolding pointInPolygon_triangle f using pos above below by auto
  next
    case neg
    have above: "\<not> (lat' < lat a \<and> lat' < lat b \<and> lat' < lat c)"
    proof
      assume h: "lat' < lat a \<and> lat' < lat b \<and> lat' < lat c"
      then have "?bc * (lat a - lat') < 0" "?ca * (lat b - lat') < 0" "?ab * (lat c - lat') < 0"
        using neg by (simp_all add: mult_less_0_iff)
      with w show False by linarith
    qed
    have below: "\<not> (lat a \<le> lat' \<and> lat b \<le> lat' \<and> lat c \<le> lat')"
    proof
      assume h: "lat a \<le> lat' \<and> lat b \<le> lat' \<and> lat c \<le> lat'"
      then have t: "0 \<le> ?bc * (lat a - lat')" "0 \<le> ?ca * (lat b - lat')"
        "0 \<le> ?ab * (lat c - lat')"
        using neg by (simp_all add: zero_le_mult_iff)
      with w have "?bc * (lat a - lat') = 0" "?ab * (lat c - lat') = 0"
        by linarith+
      with neg have "lat a = lat'" "lat c = lat'"
        by simp_all
      moreover from t w have "?ca * (lat b - lat') = 0"
        by linarith
      with neg have "lat b = lat'"
        by simp
      ultimately have "?ab = 0"
        by (simp add: orient_def)
      with neg show False by simp
    qed
    show ?thesis
      unfolding pointInPolygon_triangle f using neg above below by auto
  qed
qed

text \<open>
  For a point strictly outside, the edge going up and the edge going down are both to
  the right of it or both not: with one vertex at most at the latitude of the point and
  two above, and with two at most at it and one above.
\<close>

lemma one_below:
  fixes x y z u v w :: real
  assumes "x * u + y * v + z * w = 0" "u \<le> 0" "0 < v" "0 < w"
    and "x < 0 \<or> y < 0 \<or> z < 0" "0 < x \<or> 0 < y \<or> 0 < z"
  shows "0 < z \<longleftrightarrow> y < 0"
proof
  assume z: "0 < z"
  show "y < 0"
  proof (rule ccontr)
    assume "\<not> y < 0"
    then have y: "0 \<le> y" by simp
    have "0 < z * w" "0 \<le> y * v"
      using z y assms(3,4) by simp_all
    with assms(1) have "x * u < 0" by linarith
    with assms(2) have "0 < x"
      by (simp add: mult_less_0_iff)
    with y z assms(5) show False by linarith
  qed
next
  assume y: "y < 0"
  show "0 < z"
  proof (rule ccontr)
    assume "\<not> 0 < z"
    then have z: "z \<le> 0" by simp
    have "y * v < 0" "z * w \<le> 0"
      using z y assms(3,4) by (simp_all add: mult_less_0_iff mult_le_0_iff)
    with assms(1) have "0 < x * u" by linarith
    with assms(2) have "x < 0"
      by (simp add: zero_less_mult_iff)
    with y z assms(6) show False by linarith
  qed
qed

lemma two_below:
  fixes x y z u v w :: real
  assumes "x * u + y * v + z * w = 0" "u \<le> 0" "v \<le> 0" "0 < w"
    and "x < 0 \<or> y < 0 \<or> z < 0" "0 < x \<or> 0 < y \<or> 0 < z"
  shows "0 < x \<longleftrightarrow> y < 0"
proof
  assume x: "0 < x"
  show "y < 0"
  proof (rule ccontr)
    assume "\<not> y < 0"
    then have y: "0 \<le> y" by simp
    have "x * u \<le> 0" "y * v \<le> 0"
      using x y assms(2,3) by (simp_all add: mult_le_0_iff)
    with assms(1) have "0 \<le> z * w" by linarith
    with assms(4) have "0 \<le> z"
      by (simp add: zero_le_mult_iff)
    with x y assms(5) show False by linarith
  qed
next
  assume y: "y < 0"
  show "0 < x"
  proof (rule ccontr)
    assume "\<not> 0 < x"
    then have x: "x \<le> 0" by simp
    have "0 \<le> x * u" "0 \<le> y * v"
      using x y assms(2,3) by (simp_all add: zero_le_mult_iff)
    with assms(1) have "z * w \<le> 0" by linarith
    with assms(4) have "z \<le> 0"
      by (simp add: mult_le_0_iff)
    with x y assms(6) show False by linarith
  qed
qed

text \<open>
  False for every point strictly outside.
\<close>

lemma pointInPolygon_triangle_outside:
  assumes "strictly_outside_triangle lon lat' [a, b, c]"
  shows "pointInPolygon lon lat' [a, b, c] = Inr False"
proof -
  let ?ab = "orient a b lon lat'" and ?bc = "orient b c lon lat'" and ?ca = "orient c a lon lat'"
  have f: "orient a c lon lat' = - ?ca" "orient b a lon lat' = - ?ab" "orient c b lon lat' = - ?bc"
    by (rule orient_flip)+
  have n: "?bc < 0 \<or> ?ca < 0 \<or> ?ab < 0" "?ca < 0 \<or> ?ab < 0 \<or> ?bc < 0"
      "?ab < 0 \<or> ?bc < 0 \<or> ?ca < 0"
    and p: "0 < ?bc \<or> 0 < ?ca \<or> 0 < ?ab" "0 < ?ca \<or> 0 < ?ab \<or> 0 < ?bc"
      "0 < ?ab \<or> 0 < ?bc \<or> 0 < ?ca"
    using assms by (auto simp: strictly_outside_triangle_def)
  have w1: "?bc * (lat a - lat') + ?ca * (lat b - lat') + ?ab * (lat c - lat') = 0"
    and w2: "?ca * (lat b - lat') + ?ab * (lat c - lat') + ?bc * (lat a - lat') = 0"
    and w3: "?ab * (lat c - lat') + ?bc * (lat a - lat') + ?ca * (lat b - lat') = 0"
    using orient_weights [of b c lon lat' a] by linarith+
  have a1: "0 < ?ab \<longleftrightarrow> ?ca < 0" if "lat a \<le> lat'" "lat' < lat b" "lat' < lat c"
    using one_below [OF w1 _ _ _ n(1) p(1)] that by simp
  have b1: "0 < ?bc \<longleftrightarrow> ?ab < 0" if "lat b \<le> lat'" "lat' < lat c" "lat' < lat a"
    using one_below [OF w2 _ _ _ n(2) p(2)] that by simp
  have c1: "0 < ?ca \<longleftrightarrow> ?bc < 0" if "lat c \<le> lat'" "lat' < lat a" "lat' < lat b"
    using one_below [OF w3 _ _ _ n(3) p(3)] that by simp
  have a2: "0 < ?bc \<longleftrightarrow> ?ca < 0" if "lat a \<le> lat'" "lat b \<le> lat'" "lat' < lat c"
    using two_below [OF w1 _ _ _ n(1) p(1)] that by simp
  have b2: "0 < ?ca \<longleftrightarrow> ?ab < 0" if "lat b \<le> lat'" "lat c \<le> lat'" "lat' < lat a"
    using two_below [OF w2 _ _ _ n(2) p(2)] that by simp
  have c2: "0 < ?ab \<longleftrightarrow> ?bc < 0" if "lat c \<le> lat'" "lat a \<le> lat'" "lat' < lat b"
    using two_below [OF w3 _ _ _ n(3) p(3)] that by simp
  consider "lat a \<le> lat'" "lat b \<le> lat'" "lat c \<le> lat'"
    | "lat' < lat a" "lat' < lat b" "lat' < lat c"
    | "lat a \<le> lat'" "lat' < lat b" "lat' < lat c"
    | "lat b \<le> lat'" "lat' < lat c" "lat' < lat a"
    | "lat c \<le> lat'" "lat' < lat a" "lat' < lat b"
    | "lat a \<le> lat'" "lat b \<le> lat'" "lat' < lat c"
    | "lat b \<le> lat'" "lat c \<le> lat'" "lat' < lat a"
    | "lat c \<le> lat'" "lat a \<le> lat'" "lat' < lat b"
    by linarith
  then show ?thesis
  proof cases
    case 1
    then show ?thesis unfolding pointInPolygon_triangle f by auto
  next
    case 2
    then show ?thesis unfolding pointInPolygon_triangle f by auto
  next
    case 3
    with a1 show ?thesis unfolding pointInPolygon_triangle f by auto
  next
    case 4
    with b1 show ?thesis unfolding pointInPolygon_triangle f by auto
  next
    case 5
    with c1 show ?thesis unfolding pointInPolygon_triangle f by auto
  next
    case 6
    with a2 show ?thesis unfolding pointInPolygon_triangle f by auto
  next
    case 7
    with b2 show ?thesis unfolding pointInPolygon_triangle f by auto
  next
    case 8
    with c2 show ?thesis unfolding pointInPolygon_triangle f by auto
  qed
qed

section \<open>Properties of the geometry filter in binary64 arithmetic\<close>

text \<open>
  Without rounding the functions of this section are those of the geometry filter.
\<close>

lemma intersect_rounded_exact: "intersect_rounded (\<lambda>x. x) lon lat' vi vj = intersect lon lat' vi vj"
  by (simp add: intersect_rounded_def intersect_def denominator_def Let_def)

lemma pointInPolygon_rounded_loop_exact:
  "pointInPolygon_rounded_loop (\<lambda>x. x) lon lat' ring i j inside =
     pointInPolygon_loop lon lat' ring i j inside"
proof (induction lon lat' ring i j inside rule: pointInPolygon_loop.induct)
  case (1 lon lat' ring i j inside)
  show ?case
  proof (cases "i < int (length ring)")
    case False
    then show ?thesis by simp
  next
    case True
    show ?thesis
    proof (cases "index ring i")
      case None
      with True show ?thesis by simp
    next
      case vi: (Some vi)
      show ?thesis
      proof (cases "index ring j")
        case None
        with True vi show ?thesis by simp
      next
        case vj: (Some vj)
        show ?thesis
        proof (cases "intersect lon lat' vi vj")
          case (Inl e)
          with True vi vj show ?thesis
            by (subst pointInPolygon_rounded_loop.simps, subst pointInPolygon_loop.simps)
               (simp add: intersect_rounded_exact)
        next
          case (Inr c)
          with True vi vj 1 [OF True _ vi vj Inr] show ?thesis
            by (subst pointInPolygon_rounded_loop.simps, subst pointInPolygon_loop.simps)
               (simp add: intersect_rounded_exact)
        qed
      qed
    qed
  qed
qed

lemma pointInPolygon_rounded_exact:
  "pointInPolygon_rounded (\<lambda>x. x) lon lat' ring = pointInPolygon lon lat' ring"
  unfolding pointInPolygon_rounded_def pointInPolygon_def
  by (rule pointInPolygon_rounded_loop_exact)

lemma pointInPolygon_rounded_empty: "pointInPolygon_rounded fl lon lat' [] = Inr False"
  by (simp add: pointInPolygon_rounded_def)

text \<open>
  The search finds the binade, so that a value of \<open>double\<close> can be computed from the
  binade of its argument.
\<close>

lemma find_exponent_eq:
  assumes "2 powi k \<le> a" "a < 2 powi (k + 1)" "e \<le> k" "k \<le> e + int n"
  shows "find_exponent n e a = k"
  using assms
proof (induction n arbitrary: e)
  case 0
  then show ?case by simp
next
  case (Suc n)
  show ?case
  proof (cases "e = k")
    case True
    with Suc.prems(2) show ?thesis by simp
  next
    case False
    with Suc.prems(3) have l: "e + 1 \<le> k" by simp
    have "(2 :: real) powi (e + 1) \<le> 2 powi k"
      using l by (intro power_int_increasing) simp_all
    with Suc.prems(1) have "2 powi (e + 1) \<le> a" by simp
    moreover have "find_exponent n (e + 1) a = k"
      using Suc.prems l by (intro Suc.IH) simp_all
    ultimately show ?thesis by simp
  qed
qed

lemma exponent_eq:
  assumes "2 powi k \<le> \<bar>x\<bar>" "\<bar>x\<bar> < 2 powi (k + 1)" "- 1022 \<le> k" "k \<le> 1023"
  shows "exponent x = k"
  unfolding exponent_def using assms by (intro find_exponent_eq) simp_all

lemma double_eq:
  assumes "2 powi k \<le> \<bar>x\<bar>" "\<bar>x\<bar> < 2 powi (k + 1)" "- 1022 \<le> k" "k \<le> 1023"
    and "round_to_even (x / 2 powi (k - 52)) = n"
  shows "double x = of_int n * 2 powi (k - 52)"
  using assms(5) by (simp add: double_def exponent_eq [OF assms(1-4)])

lemma round_to_even_int [simp]: "round_to_even (of_int n) = n"
  by (simp add: round_to_even_def)

lemma double_grid:
  fixes m :: nat
  assumes "2 ^ 52 \<le> \<bar>x\<bar> * 2 ^ m" "\<bar>x\<bar> * 2 ^ m < 2 ^ 53" "m \<le> 1074"
    and "round_to_even (x * 2 ^ m) = n"
  shows "double x = of_int n / 2 ^ m"
proof -
  have p: "(2 :: real) powi (j - int m) = 2 ^ nat j / 2 ^ m" if "0 \<le> j" for j
  proof -
    have "(2 :: real) powi (j - int m) = 2 powi j / 2 powi int m"
      by (rule power_int_diff) simp
    also have "(2 :: real) powi j = 2 ^ nat j"
      using that by (simp add: power_int_def)
    finally show ?thesis
      by simp
  qed
  have g: "(2 :: real) powi (52 - int m - 52) = 1 / 2 ^ m"
    using p [of 0] by simp
  have "2 powi (52 - int m) = (2 :: real) ^ 52 / 2 ^ m"
    using p [of 52] by simp
  then have "2 powi (52 - int m) \<le> \<bar>x\<bar>"
    using assms(1) by (simp only: pos_divide_le_eq zero_less_power zero_less_numeral)
  moreover have "2 powi (52 - int m + 1) = (2 :: real) ^ 53 / 2 ^ m"
    using p [of 53] by (simp add: algebra_simps)
  then have "\<bar>x\<bar> < 2 powi (52 - int m + 1)"
    using assms(2) by (simp only: pos_less_divide_eq zero_less_power zero_less_numeral)
  moreover have "- 1022 \<le> 52 - int m" "52 - int m \<le> 1023"
    using assms(3) by simp_all
  moreover have "round_to_even (x / 2 powi (52 - int m - 52)) = n"
    using assms(4) by (simp only: g) simp
  ultimately have "double x = of_int n * 2 powi (52 - int m - 52)"
    by (rule double_eq)
  then show ?thesis
    by (simp only: g) simp
qed

text \<open>
  The numbers of the example, and what its operations round to. One third and two thirds
  are not binary64 values; they round down.
\<close>

lemma double_0: "double 0 = 0"
  by (simp add: double_def round_to_even_def)

lemma double_1: "double 1 = 1"
  using double_grid [of 1 52 "2 ^ 52"] by (simp add: round_to_even_def)

lemma double_m1: "double (- 1) = - 1"
  using double_grid [of "- 1" 52 "- (2 ^ 52)"] by (simp add: round_to_even_def)

lemma double_3: "double 3 = 3"
  using double_grid [of 3 51 "3 * 2 ^ 51"] by (simp add: round_to_even_def)

lemma double_m2: "double (- 2) = - 2"
  using double_grid [of "- 2" 51 "- (2 ^ 52)"] by (simp add: round_to_even_def)

lemma double_m3: "double (- 3) = - 3"
  using double_grid [of "- 3" 51 "- (3 * 2 ^ 51)"] by (simp add: round_to_even_def)

lemma double_third: "double (1 / 3) = example_lon"
  using double_grid [of "1 / 3" 54 6004799503160661]
  by (simp add: round_to_even_def example_lon_def)

lemma double_two_thirds: "double (2 / 3) = 6004799503160661 / 2 ^ 53"
  using double_grid [of "2 / 3" 53 6004799503160661] by (simp add: round_to_even_def)

lemma double_lon: "double example_lon = example_lon"
  using double_grid [of "6004799503160661 / 2 ^ 54" 54 6004799503160661]
  by (simp add: round_to_even_def example_lon_def)

lemma double_diff:
  "double (- (3002399751580331 / 9007199254740992)) = - (3002399751580331 / 9007199254740992)"
  using double_grid [of "- (3002399751580331 / 9007199254740992)" 54 "- 6004799503160662"]
  by (simp add: round_to_even_def)

lemma double_tiny: "double (1 / 10 ^ 12) \<noteq> 0"
proof -
  have "double (1 / 10 ^ 12) = 4951760157141521 / 2 ^ 92"
    using double_grid [of "1 / 10 ^ 12" 92 4951760157141521] by (simp add: round_to_even_def)
  then show ?thesis by simp
qed

text \<open>
  The rounded literal \<^verbatim>\<open>1e-12\<close> is not zero, so the rounded function divides by zero no
  more than the exact one, and returns a boolean for every ring and every point.
\<close>

lemma intersect_rounded_total:
  assumes "fl (1 / 10 ^ 12) \<noteq> 0"
  shows "\<exists>c. intersect_rounded fl lon lat' vi vj = Inr c"
  using assms by (auto simp: intersect_rounded_def divide_checked_def Let_def)

lemma pointInPolygon_rounded_loop_total:
  "fl (1 / 10 ^ 12) \<noteq> 0 \<Longrightarrow> 0 \<le> i \<Longrightarrow>
   (i < int (length ring) \<longrightarrow> 0 \<le> j \<and> j < int (length ring)) \<Longrightarrow>
   \<exists>b. pointInPolygon_rounded_loop fl lon lat' ring i j inside = Inr b"
proof (induction fl lon lat' ring i j inside rule: pointInPolygon_rounded_loop.induct)
  case (1 fl lon lat' ring i j inside)
  show ?case
  proof (cases "i < int (length ring)")
    case False
    then show ?thesis by simp
  next
    case True
    with "1.prems" have rd: "index ring i = Some (ring ! nat i)" "index ring j = Some (ring ! nat j)"
      by (simp_all add: index_def)
    obtain c where c: "intersect_rounded fl lon lat' (ring ! nat i) (ring ! nat j) = Inr c"
      using intersect_rounded_total [of fl lon lat'] "1.prems"(1) by blast
    have "\<exists>b. pointInPolygon_rounded_loop fl lon lat' ring (i + 1) i
                (if c then \<not> inside else inside) = Inr b"
      using "1.IH" [OF True refl rd(1) rd(2) c] "1.prems" True by simp
    then show ?thesis
      using True rd c by (subst pointInPolygon_rounded_loop.simps) simp
  qed
qed

lemma pointInPolygon_rounded_total: "\<exists>b. pointInPolygon_rounded double lon lat' ring = Inr b"
  unfolding pointInPolygon_rounded_def
proof (rule pointInPolygon_rounded_loop_total)
  show "double (1 / 10 ^ 12) \<noteq> 0"
    by (rule double_tiny)
qed auto

text \<open>
  The three edges of the example triangle at the point \<open>(example_lon, 1)\<close>. The edge from
  \<open>(1, 3)\<close> to the apex crosses the latitude 1 at longitude one third, to the right of the
  point; but \<^verbatim>\<open>1 * 1 / 3 + 0\<close> rounds to \<open>example_lon\<close> itself, and
  \<^verbatim>\<open>lon < lon\<close> is false. In exact arithmetic the crossing is counted.
\<close>

lemma rounded_edge_0:
  "intersect_rounded double example_lon 1 \<lparr>lat = 3, lng = 1\<rparr> \<lparr>lat = 3, lng = -1\<rparr> = Inr False"
  by (simp add: intersect_rounded_def)

lemma rounded_edge_1:
  "intersect_rounded double example_lon 1 \<lparr>lat = 0, lng = 0\<rparr> \<lparr>lat = 3, lng = 1\<rparr> = Inr False"
  by (simp add: intersect_rounded_def divide_checked_def double_1 double_3 double_third
      double_lon)

lemma rounded_edge_2:
  "intersect_rounded double example_lon 1 \<lparr>lat = 3, lng = -1\<rparr> \<lparr>lat = 0, lng = 0\<rparr> = Inr False"
  by (simp add: intersect_rounded_def divide_checked_def double_1 double_m2 double_m3
      double_two_thirds double_diff example_lon_def)

lemma exact_edge_1:
  "intersect example_lon 1 \<lparr>lat = 0, lng = 0\<rparr> \<lparr>lat = 3, lng = 1\<rparr> = Inr True"
  by (simp add: intersect_def divide_checked_def denominator_def example_lon_def)

text \<open>
  Claim C1. The claim fails on the code. The point with longitude \<open>example_lon\<close> and
  latitude 1 and the vertices of the example triangle are binary64 values, and the point
  lies strictly inside the triangle. Computed as JavaScript computes, with every result
  rounded, \<^verbatim>\<open>pointInPolygon\<close> returns false for it: the one crossing to its right is
  lost in the rounding of the quotient. The same loop in exact arithmetic returns true, as
  it does for every point strictly inside a triangle (lemma
  \<open>pointInPolygon_triangle_inside\<close>). For an empty ring the result is false, whatever the
  rounding.
\<close>

theorem pointInPolygon_rounding:
  "double example_lon = example_lon \<and> double 1 = 1 \<and> double 3 = 3 \<and> double 0 = 0
   \<and> double (- 1) = - 1
   \<and> strictly_inside_triangle example_lon 1 example_triangle
   \<and> pointInPolygon_rounded double example_lon 1 example_triangle = Inr False
   \<and> pointInPolygon example_lon 1 example_triangle = Inr True
   \<and> pointInPolygon_rounded (\<lambda>x. x) lon lat' ring = pointInPolygon lon lat' ring
   \<and> pointInPolygon_rounded fl lon lat' [] = Inr False"
proof -
  have 1: "strictly_inside_triangle example_lon 1 example_triangle"
    by (simp add: strictly_inside_triangle_def example_triangle_def orient_def example_lon_def)
  have 2: "pointInPolygon_rounded double example_lon 1 example_triangle = Inr False"
    by (simp add: pointInPolygon_rounded_def example_triangle_def index_def
        rounded_edge_0 rounded_edge_1 rounded_edge_2)
  have 3: "pointInPolygon example_lon 1 example_triangle = Inr True"
    by (simp add: pointInPolygon_def example_triangle_def index_def intersect_def
        divide_checked_def denominator_def example_lon_def)
  show ?thesis
    using double_lon double_1 double_3 double_0 double_m1 1 2 3
      pointInPolygon_rounded_exact pointInPolygon_rounded_empty
    by (intro conjI)
qed

section \<open>Properties of Leaflet's polygons\<close>

text \<open>
  The conversion removes one point at most, and none from fewer than two points.
\<close>

lemma length_convertLatLngs:
  "length (convertLatLngs points) \<le> length points"
  "length points - 1 \<le> length (convertLatLngs points)"
  by (simp_all add: convertLatLngs_def)

lemma convertLatLngs_short: "length points < 2 \<Longrightarrow> convertLatLngs points = points"
  by (simp add: convertLatLngs_def)



lemma convertLatLngs_example_ring: "convertLatLngs example_ring = example_ring"
  by (simp add: convertLatLngs_def example_ring_def latlng_equals_def)

lemma convertLatLngs_example_points: "convertLatLngs example_points = example_points"
  by (simp add: convertLatLngs_def example_points_def latlng_equals_def)


section \<open>Properties of the parcel renderer\<close>

lemma updateDrawButtonState_eq:
  "updateDrawButtonState s =
     s\<lparr>drawButtonElRef :=
         map_option (\<lambda>_. showZoomMessageRef s \<or> hasUserPolygonRef s \<or> isDrawingRef s)
           (drawButtonElRef s)\<rparr>"
  by (simp add: updateDrawButtonState_def split: option.split)

lemma filterLatLngs_layer [simp]: "filterLatLngs (s\<lparr>parcelsLayerRef := l\<rparr>) = filterLatLngs s"
  by (simp add: filterLatLngs_def)

lemma filterLatLngs_cong:
  "userPolygonRef t = userPolygonRef s \<Longrightarrow> filterLatLngs t = filterLatLngs s"
  by (simp add: filterLatLngs_def)

lemma filterLatLngs_L_polygon:
  "userPolygonRef s = Some (L_polygon points) \<Longrightarrow> filterLatLngs s = Some (convertLatLngs points)"
  by (simp add: filterLatLngs_def L_polygon_def index_def)

lemma filterLatLngs_Polygon:
  "userPolygonRef s = Some (Polygon (ring # rings)) \<Longrightarrow> filterLatLngs s = Some ring"
  by (simp add: filterLatLngs_def index_def)

lemma filterLatLngs_None: "userPolygonRef s = None \<Longrightarrow> filterLatLngs s = None"
  by (simp add: filterLatLngs_def)

text \<open>
  With the Leaflet module at hand the callback never throws: it appends the parcel's
  geometry unless the parcel is passed over.
\<close>

lemma redraw_parcel_True:
  "redraw_parcel True ring layer p =
     Inr (layer @ (case (if centroid_fails ring p then None else geometry p) of
                     None \<Rightarrow> [] | Some g \<Rightarrow> [g]))"
proof (cases "geometry p")
  case None
  then show ?thesis by (simp add: redraw_parcel_def)
next
  case (Some g)
  show ?thesis
  proof (cases ring)
    case None
    with Some show ?thesis by (simp add: redraw_parcel_def)
  next
    case r: (Some r)
    show ?thesis
    proof (cases "p_lat p")
      case None
      with Some r show ?thesis by (simp add: redraw_parcel_def)
    next
      case la: (Some la)
      show ?thesis
      proof (cases "p_lon p")
        case None
        with Some r la show ?thesis by (simp add: redraw_parcel_def)
      next
        case lo: (Some lo)
        obtain b where "pointInPolygon lo la r = Inr b"
          using pointInPolygon_total by blast
        with Some r la lo show ?thesis by (simp add: redraw_parcel_def)
      qed
    qed
  qed
qed

lemma forEach_append_out:
  assumes "\<And>layer p. f layer p = Inr (layer @ out p)"
  shows "forEach f ps layer = Inr (layer @ concat (map out ps))"
  by (induction ps arbitrary: layer) (simp_all add: assms)

lemma concat_map_option:
  "concat (map (\<lambda>p. case h p of None \<Rightarrow> [] | Some g \<Rightarrow> [g]) ps) = List.map_filter h ps"
  by (induction ps) (simp_all add: List.map_filter_simps split: option.split)

lemma forEach_redraw_parcel:
  "forEach (redraw_parcel True ring) ps layer =
     Inr (layer @ List.map_filter (\<lambda>p. if centroid_fails ring p then None else geometry p) ps)"
  using forEach_append_out [of "redraw_parcel True ring", OF redraw_parcel_True, of ps layer]
  by (simp only: concat_map_option)

lemma redrawParcels_True:
  assumes "mapRef s = Some m" "parcelsLayerRef s = Some layer"
  shows "redrawParcels True s =
     Inr (s\<lparr>parcelsLayerRef :=
            Some (if zoom m < DRAW_ZOOM_THRESHOLD then []
                  else List.map_filter
                         (\<lambda>p. if centroid_fails (filterLatLngs s) p then None else geometry p)
                         (parcelsRef s))\<rparr>)"
  using assms by (simp add: redrawParcels_def Let_def forEach_redraw_parcel)

lemma redrawParcels_frame:
  "redrawParcels L s = Inr s' \<Longrightarrow> \<exists>l. s' = s\<lparr>parcelsLayerRef := l\<rparr>"
  by (auto simp: redrawParcels_def Let_def split: option.splits sum.splits if_splits
      intro: exI [of _ "parcelsLayerRef s"])

lemma redrawParcels_keeps_layer:
  "redrawParcels L s = Inr s' \<Longrightarrow> parcelsLayerRef s \<noteq> None \<Longrightarrow> parcelsLayerRef s' \<noteq> None"
  by (auto simp: redrawParcels_def Let_def split: option.splits sum.splits if_splits)

lemma redrawParcels_no_error:
  assumes "mapRef s \<noteq> None" "parcelsLayerRef s \<noteq> None"
  shows "\<exists>s'. redrawParcels True s = Inr s'"
proof -
  obtain m l where "mapRef s = Some m" "parcelsLayerRef s = Some l"
    using assms by auto
  then show ?thesis
    using redrawParcels_True by blast
qed

lemma redrawParcels_idem:
  assumes "mapRef s = Some m" "parcelsLayerRef s = Some layer" "redrawParcels True s = Inr s'"
  shows "redrawParcels True s' = Inr s'"
proof -
  let ?out = "if zoom m < DRAW_ZOOM_THRESHOLD then []
              else List.map_filter
                     (\<lambda>p. if centroid_fails (filterLatLngs s) p then None else geometry p)
                     (parcelsRef s)"
  have s': "s' = s\<lparr>parcelsLayerRef := Some ?out\<rparr>"
    using redrawParcels_True [OF assms(1,2)] assms(3) by simp
  have "redrawParcels True s' =
          Inr (s'\<lparr>parcelsLayerRef :=
                  Some (if zoom m < DRAW_ZOOM_THRESHOLD then []
                        else List.map_filter
                          (\<lambda>p. if centroid_fails (filterLatLngs s') p then None else geometry p)
                          (parcelsRef s'))\<rparr>)"
    by (rule redrawParcels_True) (simp_all add: s' assms(1))
  then show ?thesis
    by (simp add: s')
qed

lemma ex_inside: "pointInPolygon (-113) 33 example_ring = Inr True"
  by (simp add: pointInPolygon_def example_ring_def index_def intersect_def divide_checked_def
      denominator_def)

lemma ex_outside: "pointInPolygon (-111) 33 example_ring = Inr False"
  by (simp add: pointInPolygon_def example_ring_def index_def intersect_def divide_checked_def
      denominator_def)

lemma example_state_fields:
  "mapRef example_state = Some (example_map 17)"
  "parcelsLayerRef example_state = Some [GeoJSON ''z'']"
  "leafletRef example_state"
  "redrawParcelsRef example_state"
  "\<not> isDrawingRef example_state"
  "drawButtonElRef example_state = Some False"
  "listening example_state"
  "inflight example_state = 0"
  by (simp_all add: example_state_def mounted_def example_map_def)

text \<open>
  On the example: the stale layer is replaced by the parcel inside the square and the
  parcel without centroid; the parcel outside the square and the row without geometry
  are left out.
\<close>

lemma example_redraw:
  "redrawParcels True example_state =
     Inr (example_state\<lparr>parcelsLayerRef := Some [GeoJSON ''a'', GeoJSON ''d'']\<rparr>)"
proof -
  have m: "mapRef example_state = Some \<lparr>zoom = 17, bounds = example_bounds, cursor = []\<rparr>"
    and l: "parcelsLayerRef example_state = Some [GeoJSON ''z'']"
    and f: "filterLatLngs example_state = Some example_ring"
    and r: "parcelsRef example_state = example_rows"
    by (simp_all add: example_state_def mounted_def filterLatLngs_L_polygon
        convertLatLngs_example_ring)
  show ?thesis
    by (simp add: redrawParcels_True [OF m l] f r DRAW_ZOOM_THRESHOLD_def example_rows_def
        List.map_filter_simps ex_inside ex_outside)
qed

text \<open>
  Claim C5. With the layer and the map in place, \<^verbatim>\<open>redrawParcels\<close> replaces the contents
  of the layer, whatever they were: by nothing when the zoom is below 16, and otherwise by
  the geometries, in cache order, of the cached parcels that have one, leaving out exactly
  those for which a filter ring exists, both centroid coordinates are present and
  \<^verbatim>\<open>pointInPolygon\<close> returns false. Nothing else changes, and a second call on the
  result changes nothing. The filter ring is the first ring of the user's polygon, which
  for a polygon made by \<^verbatim>\<open>L.polygon(points)\<close> is the points as Leaflet converts them;
  there is none when there is no polygon.
\<close>

theorem redrawParcels_renders:
  assumes "mapRef s = Some m" and "parcelsLayerRef s = Some layer"
  shows "\<exists>s'. redrawParcels True s = Inr s'
           \<and> s' = s\<lparr>parcelsLayerRef :=
                      Some (if zoom m < 16 then []
                            else List.map_filter
                                   (\<lambda>p. if centroid_fails (filterLatLngs s) p then None
                                        else geometry p)
                                   (parcelsRef s))\<rparr>
           \<and> redrawParcels True s' = Inr s'
           \<and> (userPolygonRef s = None \<longrightarrow> filterLatLngs s = None)
           \<and> (\<forall>points. userPolygonRef s = Some (L_polygon points)
                  \<longrightarrow> filterLatLngs s = Some (convertLatLngs points))
           \<and> (\<forall>ring rings. userPolygonRef s = Some (Polygon (ring # rings))
                  \<longrightarrow> filterLatLngs s = Some ring)"
proof -
  obtain s' where s': "redrawParcels True s = Inr s'"
    using redrawParcels_True [OF assms] by blast
  have "s' = s\<lparr>parcelsLayerRef :=
                      Some (if zoom m < 16 then []
                            else List.map_filter
                                   (\<lambda>p. if centroid_fails (filterLatLngs s) p then None
                                        else geometry p)
                                   (parcelsRef s))\<rparr>"
    using redrawParcels_True [OF assms] s' by (simp add: DRAW_ZOOM_THRESHOLD_def)
  moreover have "redrawParcels True s' = Inr s'"
    using assms s' by (rule redrawParcels_idem)
  ultimately show ?thesis
    using s' filterLatLngs_None filterLatLngs_L_polygon filterLatLngs_Polygon by blast
qed

theorem redrawParcels_renders_witness:
  "mapRef example_state = Some \<lparr>zoom = 17, bounds = example_bounds, cursor = []\<rparr>
   \<and> parcelsLayerRef example_state = Some [GeoJSON ''z'']
   \<and> userPolygonRef example_state = Some (L_polygon example_ring)
   \<and> filterLatLngs example_state = Some example_ring
   \<and> (\<exists>s'. redrawParcels True example_state = Inr s'
           \<and> s' = example_state\<lparr>parcelsLayerRef :=
                      Some (if zoom \<lparr>zoom = 17, bounds = example_bounds, cursor = []\<rparr> < 16 then []
                            else List.map_filter
                                   (\<lambda>p. if centroid_fails (filterLatLngs example_state) p then None
                                        else geometry p)
                                   (parcelsRef example_state))\<rparr>
           \<and> redrawParcels True s' = Inr s')"
proof -
  have m: "mapRef example_state = Some \<lparr>zoom = 17, bounds = example_bounds, cursor = []\<rparr>"
    and l: "parcelsLayerRef example_state = Some [GeoJSON ''z'']"
    and u: "userPolygonRef example_state = Some (L_polygon example_ring)"
    by (simp_all add: example_state_def mounted_def)
  note c = redrawParcels_renders [OF m l]
  from c u have "filterLatLngs example_state = Some (convertLatLngs example_ring)"
    by blast
  then have f: "filterLatLngs example_state = Some example_ring"
    by (simp only: convertLatLngs_example_ring)
  from c have r: "\<exists>s'. redrawParcels True example_state = Inr s'
           \<and> s' = example_state\<lparr>parcelsLayerRef :=
                      Some (if zoom \<lparr>zoom = 17, bounds = example_bounds, cursor = []\<rparr> < 16 then []
                            else List.map_filter
                                   (\<lambda>p. if centroid_fails (filterLatLngs example_state) p then None
                                        else geometry p)
                                   (parcelsRef example_state))\<rparr>
           \<and> redrawParcels True s' = Inr s'"
    by blast
  show ?thesis
    using m l u f r by (intro conjI)
qed

section \<open>Properties of the viewport fetcher\<close>

lemma viewport_query_eq:
  "viewport_query b =
     \<lparr>table = ''parcel_info3'',
      columns = ''id, geometry, zoning, usedesc, lat, lon'',
      filters = [Gt ''lat'' (south b), Lt ''lat'' (north b),
                 Gt ''lon'' (west b), Lt ''lon'' (east b)],
      limit = 300\<rparr>"
  by (simp add: viewport_query_def)

lemma viewport_query_selects:
  "list_all (satisfies p) (filters (viewport_query b)) \<longleftrightarrow>
     (\<exists>la lo. p_lat p = Some la \<and> p_lon p = Some lo
        \<and> south b < la \<and> la < north b \<and> west b < lo \<and> lo < east b)"
  by (auto simp: viewport_query_def column_value_def split: option.splits)

lemma issue_below:
  assumes "mapRef s = Some m" "zoom m < FETCH_ZOOM_THRESHOLD" "parcelsLayerRef s = Some layer"
  shows "fetchParcelsForView_issue s =
           Inr (s\<lparr>showZoomMessage := True, showZoomMessageRef := True, parcelsRef := [],
                  parcelsLayerRef := Some [], count := 0,
                  drawButtonElRef := map_option (\<lambda>_. True) (drawButtonElRef s)\<rparr>, None)"
  using assms by (simp add: fetchParcelsForView_issue_def updateDrawButtonState_eq)

lemma issue_idle:
  assumes "mapRef s = Some m" "\<not> zoom m < FETCH_ZOOM_THRESHOLD" "\<not> isDrawingRef s"
  shows "fetchParcelsForView_issue s =
           Inr (s\<lparr>showZoomMessage := False, showZoomMessageRef := False,
                  drawButtonElRef := map_option (\<lambda>_. hasUserPolygonRef s) (drawButtonElRef s),
                  loading := True, errorMsg := None,
                  queries := queries s @ [viewport_query (bounds m)]\<rparr>,
                Some (viewport_query (bounds m)))"
  using assms by (simp add: fetchParcelsForView_issue_def updateDrawButtonState_eq Let_def)

lemma issue_drawing_no_query:
  assumes "isDrawingRef s" "fetchParcelsForView_issue s = Inr (s', q)"
  shows "q = None \<and> queries s' = queries s"
  using assms
  by (auto simp: fetchParcelsForView_issue_def updateDrawButtonState_eq Let_def
      split: option.splits if_splits)

lemma issue_no_error:
  assumes "parcelsLayerRef s \<noteq> None"
  shows "\<exists>s' q. fetchParcelsForView_issue s = Inr (s', q)"
  using assms
  by (auto simp: fetchParcelsForView_issue_def Let_def split: option.splits)

lemma issue_count:
  assumes "fetchParcelsForView_issue s = Inr (s', q)"
  shows "parcelsRef s' = [] \<and> count s' = 0 \<or> parcelsRef s' = parcelsRef s \<and> count s' = count s"
  using assms
  by (auto simp: fetchParcelsForView_issue_def updateDrawButtonState_eq Let_def
      split: option.splits if_splits)

lemma settle_failure:
  assumes "parcelsLayerRef s = Some layer" "error r = Some message"
  shows "fetchParcelsForView_settle r s =
           Inr (s\<lparr>errorMsg := Some message, parcelsRef := [], parcelsLayerRef := Some [],
                  count := 0, loading := False\<rparr>)"
  using assms by (simp add: fetchParcelsForView_settle_def)

lemma settle_success:
  assumes "mapRef s = Some m" "parcelsLayerRef s = Some layer" "leafletRef s" "error r = None"
  shows "fetchParcelsForView_settle r s =
           Inr (s\<lparr>parcelsRef :=
                    filter (\<lambda>p. geometry p \<noteq> None) (case data r of None \<Rightarrow> [] | Some rows \<Rightarrow> rows),
                  count :=
                    length (filter (\<lambda>p. geometry p \<noteq> None)
                              (case data r of None \<Rightarrow> [] | Some rows \<Rightarrow> rows)),
                  parcelsLayerRef :=
                    Some (if zoom m < DRAW_ZOOM_THRESHOLD then []
                          else List.map_filter
                                 (\<lambda>p. if centroid_fails (filterLatLngs s) p then None
                                      else geometry p)
                                 (filter (\<lambda>p. geometry p \<noteq> None)
                                    (case data r of None \<Rightarrow> [] | Some rows \<Rightarrow> rows))),
                  loading := False\<rparr>)"
proof -
  define cleaned where
    "cleaned = filter (\<lambda>p. geometry p \<noteq> None) (case data r of None \<Rightarrow> [] | Some rows \<Rightarrow> rows)"
  define s1 where "s1 = s\<lparr>parcelsRef := cleaned, count := length cleaned\<rparr>"
  have f: "filterLatLngs s1 = filterLatLngs s"
    by (simp add: filterLatLngs_def s1_def)
  have "redrawParcels True s1 =
     Inr (s1\<lparr>parcelsLayerRef :=
            Some (if zoom m < DRAW_ZOOM_THRESHOLD then []
                  else List.map_filter
                         (\<lambda>p. if centroid_fails (filterLatLngs s1) p then None else geometry p)
                         (parcelsRef s1))\<rparr>)"
    by (rule redrawParcels_True [of s1 m layer]) (simp_all add: assms s1_def)
  then have rd: "redrawParcels True s1 =
     Inr (s\<lparr>parcelsRef := cleaned, count := length cleaned,
            parcelsLayerRef :=
            Some (if zoom m < DRAW_ZOOM_THRESHOLD then []
                  else List.map_filter
                         (\<lambda>p. if centroid_fails (filterLatLngs s) p then None else geometry p)
                         cleaned)\<rparr>)"
    unfolding f by (simp add: s1_def)
  have "fetchParcelsForView_settle r s =
          (case redrawParcels True s1 of Inl e \<Rightarrow> Inl e | Inr s2 \<Rightarrow> Inr (s2\<lparr>loading := False\<rparr>))"
    using assms(3,4) by (simp add: fetchParcelsForView_settle_def Let_def s1_def cleaned_def)
  then show ?thesis
    unfolding rd cleaned_def by simp
qed

lemma settle_count:
  assumes "fetchParcelsForView_settle r s = Inr s'"
  shows "count s' = length (parcelsRef s')"
proof (cases "error r")
  case (Some message)
  with assms show ?thesis
    by (auto simp: fetchParcelsForView_settle_def Let_def split: option.splits)
next
  case None
  let ?cleaned = "filter (\<lambda>p. geometry p \<noteq> None) (case data r of None \<Rightarrow> [] | Some rows \<Rightarrow> rows)"
  let ?s1 = "s\<lparr>parcelsRef := ?cleaned, count := length ?cleaned\<rparr>"
  from None assms obtain s2 where s2: "redrawParcels (leafletRef ?s1) ?s1 = Inr s2"
    and s': "s' = s2\<lparr>loading := False\<rparr>"
    by (auto simp: fetchParcelsForView_settle_def Let_def split: sum.splits)
  obtain l where "s2 = ?s1\<lparr>parcelsLayerRef := l\<rparr>"
    using redrawParcels_frame [OF s2] by blast
  then show ?thesis
    by (simp add: s')
qed

lemma settle_no_error:
  assumes "refs_set s"
  shows "\<exists>s'. fetchParcelsForView_settle r s = Inr s'"
proof (cases "error r")
  case (Some message)
  with assms show ?thesis
    by (auto simp: fetchParcelsForView_settle_def Let_def refs_set_def)
next
  case None
  let ?cleaned = "filter (\<lambda>p. geometry p \<noteq> None) (case data r of None \<Rightarrow> [] | Some rows \<Rightarrow> rows)"
  let ?s1 = "s\<lparr>parcelsRef := ?cleaned, count := length ?cleaned\<rparr>"
  have "mapRef ?s1 \<noteq> None" "parcelsLayerRef ?s1 \<noteq> None"
    using assms by (simp_all add: refs_set_def)
  then obtain s2 where "redrawParcels True ?s1 = Inr s2"
    using redrawParcels_no_error by blast
  moreover have "leafletRef ?s1" using assms by (simp add: refs_set_def)
  ultimately show ?thesis
    using None by (simp add: fetchParcelsForView_settle_def Let_def)
qed

lemma fetch_success:
  assumes "mapRef s = Some m" "parcelsLayerRef s = Some layer" "leafletRef s"
    and "\<not> zoom m < FETCH_ZOOM_THRESHOLD" "\<not> isDrawingRef s"
    and "error (remote (viewport_query (bounds m))) = None"
  shows "fetchParcelsForView remote s =
           Inr (s\<lparr>showZoomMessage := False, showZoomMessageRef := False,
                  drawButtonElRef := map_option (\<lambda>_. hasUserPolygonRef s) (drawButtonElRef s),
                  errorMsg := None,
                  queries := queries s @ [viewport_query (bounds m)],
                  parcelsRef :=
                    filter (\<lambda>p. geometry p \<noteq> None)
                      (case data (remote (viewport_query (bounds m))) of
                         None \<Rightarrow> [] | Some rows \<Rightarrow> rows),
                  count :=
                    length (filter (\<lambda>p. geometry p \<noteq> None)
                      (case data (remote (viewport_query (bounds m))) of
                         None \<Rightarrow> [] | Some rows \<Rightarrow> rows)),
                  parcelsLayerRef :=
                    Some (List.map_filter
                            (\<lambda>p. if centroid_fails (filterLatLngs s) p then None
                                 else geometry p)
                            (filter (\<lambda>p. geometry p \<noteq> None)
                               (case data (remote (viewport_query (bounds m))) of
                                  None \<Rightarrow> [] | Some rows \<Rightarrow> rows))),
                  loading := False\<rparr>)"
proof -
  define q where "q = viewport_query (bounds m)"
  define s1 where "s1 = s\<lparr>showZoomMessage := False, showZoomMessageRef := False,
                  drawButtonElRef := map_option (\<lambda>_. hasUserPolygonRef s) (drawButtonElRef s),
                  loading := True, errorMsg := None,
                  queries := queries s @ [q]\<rparr>"
  have i: "fetchParcelsForView_issue s = Inr (s1, Some q)"
    using issue_idle [OF assms(1,4,5)] by (simp add: s1_def q_def)
  have f: "filterLatLngs s1 = filterLatLngs s"
    by (rule filterLatLngs_cong) (simp add: s1_def)
  have z: "\<not> zoom m < DRAW_ZOOM_THRESHOLD"
    using assms(4) by (simp add: DRAW_ZOOM_THRESHOLD_def FETCH_ZOOM_THRESHOLD_def)
  have "fetchParcelsForView_settle (remote q) s1 = Inr (s1\<lparr>parcelsRef :=
                    filter (\<lambda>p. geometry p \<noteq> None) (case data (remote q) of None \<Rightarrow> [] | Some rows \<Rightarrow> rows),
                  count :=
                    length (filter (\<lambda>p. geometry p \<noteq> None)
                              (case data (remote q) of None \<Rightarrow> [] | Some rows \<Rightarrow> rows)),
                  parcelsLayerRef :=
                    Some (if zoom m < DRAW_ZOOM_THRESHOLD then []
                          else List.map_filter
                                 (\<lambda>p. if centroid_fails (filterLatLngs s1) p then None
                                      else geometry p)
                                 (filter (\<lambda>p. geometry p \<noteq> None)
                                    (case data (remote q) of None \<Rightarrow> [] | Some rows \<Rightarrow> rows))),
                  loading := False\<rparr>)"
    by (rule settle_success [of s1 m layer]) (simp_all add: s1_def assms q_def)
  then show ?thesis
    unfolding f fetchParcelsForView_def i
    by (simp add: z s1_def q_def)
qed

lemma fetch_failure:
  assumes "mapRef s = Some m" "parcelsLayerRef s = Some layer"
    and "\<not> zoom m < FETCH_ZOOM_THRESHOLD" "\<not> isDrawingRef s"
    and "error (remote (viewport_query (bounds m))) = Some message"
  shows "fetchParcelsForView remote s =
           Inr (s\<lparr>showZoomMessage := False, showZoomMessageRef := False,
                  drawButtonElRef := map_option (\<lambda>_. hasUserPolygonRef s) (drawButtonElRef s),
                  queries := queries s @ [viewport_query (bounds m)],
                  errorMsg := Some message, parcelsRef := [], parcelsLayerRef := Some [],
                  count := 0, loading := False\<rparr>)"
proof -
  define q where "q = viewport_query (bounds m)"
  define s1 where "s1 = s\<lparr>showZoomMessage := False, showZoomMessageRef := False,
                  drawButtonElRef := map_option (\<lambda>_. hasUserPolygonRef s) (drawButtonElRef s),
                  loading := True, errorMsg := None,
                  queries := queries s @ [q]\<rparr>"
  have i: "fetchParcelsForView_issue s = Inr (s1, Some q)"
    using issue_idle [OF assms(1,3,4)] by (simp add: s1_def q_def)
  have "fetchParcelsForView_settle (remote q) s1 =
           Inr (s1\<lparr>errorMsg := Some message, parcelsRef := [], parcelsLayerRef := Some [],
                  count := 0, loading := False\<rparr>)"
    by (rule settle_failure [of s1 layer]) (simp_all add: s1_def assms q_def)
  then show ?thesis
    unfolding fetchParcelsForView_def i
    by (simp add: s1_def q_def)
qed

lemma fetch_no_query:
  assumes "fetchParcelsForView_issue s = Inr (s', None)"
  shows "fetchParcelsForView remote s = Inr s'"
  using assms by (simp add: fetchParcelsForView_def)

lemma drawing_state_fields:
  "mapRef (drawing_state points) =
     Some \<lparr>zoom = 17, bounds = example_bounds, cursor = ''crosshair''\<rparr>"
  "parcelsLayerRef (drawing_state points) = Some [GeoJSON ''a'', GeoJSON ''c'', GeoJSON ''d'']"
  "leafletRef (drawing_state points)"
  "isDrawingRef (drawing_state points)"
  "drawPointsRef (drawing_state points) = points"
  by (simp_all add: drawing_state_def mounted_def)

text \<open>
  Claim C2. At a zoom of 16 or more and with drawing mode off, \<^verbatim>\<open>fetchParcelsForView\<close>
  sends exactly one request: table \<^verbatim>\<open>parcel_info3\<close>, the six columns, the four strict
  bounds of the viewport on \<^verbatim>\<open>lat\<close> and \<^verbatim>\<open>lon\<close>, at most 300 rows; a row satisfies its
  filters exactly when both coordinates are present and lie strictly between the bounds.
  When the store answers without error, the cache becomes the rows of the answer that
  have a geometry (none if the data is null), the count is their number, and the layer
  is redrawn from them: a further redraw changes nothing. With drawing mode on, no
  request is sent. The call is taken as a whole, with nothing happening between the
  request and the answer; the last part says what the answer does when it arrives in
  any later state that has the map, the layer and the Leaflet module.
\<close>

theorem fetchParcelsForView_fetches:
  assumes "mapRef s = Some m" and "parcelsLayerRef s = Some layer" and "leafletRef s"
  shows
    "(16 \<le> zoom m \<and> \<not> isDrawingRef s \<and> error (remote (viewport_query (bounds m))) = None \<longrightarrow>
       (\<exists>s'. fetchParcelsForView remote s = Inr s'
          \<and> queries s' = queries s @ [viewport_query (bounds m)]
          \<and> parcelsRef s' =
              filter (\<lambda>p. geometry p \<noteq> None)
                (case data (remote (viewport_query (bounds m))) of
                   None \<Rightarrow> [] | Some rows \<Rightarrow> rows)
          \<and> count s' = length (parcelsRef s')
          \<and> parcelsLayerRef s' =
              Some (List.map_filter
                      (\<lambda>p. if centroid_fails (filterLatLngs s) p then None else geometry p)
                      (parcelsRef s'))
          \<and> redrawParcels True s' = Inr s'))
     \<and> viewport_query (bounds m) =
         \<lparr>table = ''parcel_info3'',
          columns = ''id, geometry, zoning, usedesc, lat, lon'',
          filters = [Gt ''lat'' (south (bounds m)), Lt ''lat'' (north (bounds m)),
                     Gt ''lon'' (west (bounds m)), Lt ''lon'' (east (bounds m))],
          limit = 300\<rparr>
     \<and> (\<forall>p. list_all (satisfies p) (filters (viewport_query (bounds m))) \<longleftrightarrow>
            (\<exists>la lo. p_lat p = Some la \<and> p_lon p = Some lo
               \<and> south (bounds m) < la \<and> la < north (bounds m)
               \<and> west (bounds m) < lo \<and> lo < east (bounds m)))
     \<and> (isDrawingRef s \<longrightarrow>
          (\<exists>s'. fetchParcelsForView remote s = Inr s' \<and> queries s' = queries s))
     \<and> (\<forall>t mt lt r.
            mapRef t = Some mt \<and> parcelsLayerRef t = Some lt \<and> leafletRef t \<and> error r = None \<longrightarrow>
            (\<exists>t'. fetchParcelsForView_settle r t = Inr t'
               \<and> parcelsRef t' =
                   filter (\<lambda>p. geometry p \<noteq> None)
                     (case data r of None \<Rightarrow> [] | Some rows \<Rightarrow> rows)
               \<and> count t' = length (parcelsRef t')
               \<and> parcelsLayerRef t' =
                   Some (if zoom mt < 16 then []
                         else List.map_filter
                                (\<lambda>p. if centroid_fails (filterLatLngs t) p then None
                                     else geometry p)
                                (parcelsRef t'))
               \<and> queries t' = queries t))"
proof (intro conjI impI allI)
  assume a: "16 \<le> zoom m \<and> \<not> isDrawingRef s \<and> error (remote (viewport_query (bounds m))) = None"
  then have z: "\<not> zoom m < FETCH_ZOOM_THRESHOLD"
    by (simp add: FETCH_ZOOM_THRESHOLD_def)
  define cleaned where "cleaned = filter (\<lambda>p. geometry p \<noteq> None)
                (case data (remote (viewport_query (bounds m))) of
                   None \<Rightarrow> [] | Some rows \<Rightarrow> rows)"
  define s' where "s' = s\<lparr>showZoomMessage := False, showZoomMessageRef := False,
                  drawButtonElRef := map_option (\<lambda>_. hasUserPolygonRef s) (drawButtonElRef s),
                  errorMsg := None,
                  queries := queries s @ [viewport_query (bounds m)],
                  parcelsRef := cleaned,
                  count := length cleaned,
                  parcelsLayerRef :=
                    Some (List.map_filter
                            (\<lambda>p. if centroid_fails (filterLatLngs s) p then None
                                 else geometry p) cleaned),
                  loading := False\<rparr>"
  have run: "fetchParcelsForView remote s = Inr s'"
    using fetch_success [OF assms z, of remote] a by (simp add: s'_def cleaned_def)
  have f: "filterLatLngs s' = filterLatLngs s"
    by (rule filterLatLngs_cong) (simp add: s'_def)
  have "redrawParcels True s' =
     Inr (s'\<lparr>parcelsLayerRef :=
            Some (if zoom m < DRAW_ZOOM_THRESHOLD then []
                  else List.map_filter
                         (\<lambda>p. if centroid_fails (filterLatLngs s') p then None else geometry p)
                         (parcelsRef s'))\<rparr>)"
    by (rule redrawParcels_True [of s' m]) (simp_all add: s'_def assms)
  then have again: "redrawParcels True s' = Inr s'"
    unfolding f using a by (simp add: s'_def DRAW_ZOOM_THRESHOLD_def)
  show "\<exists>s'. fetchParcelsForView remote s = Inr s'
          \<and> queries s' = queries s @ [viewport_query (bounds m)]
          \<and> parcelsRef s' =
              filter (\<lambda>p. geometry p \<noteq> None)
                (case data (remote (viewport_query (bounds m))) of
                   None \<Rightarrow> [] | Some rows \<Rightarrow> rows)
          \<and> count s' = length (parcelsRef s')
          \<and> parcelsLayerRef s' =
              Some (List.map_filter
                      (\<lambda>p. if centroid_fails (filterLatLngs s) p then None else geometry p)
                      (parcelsRef s'))
          \<and> redrawParcels True s' = Inr s'"
    using run again unfolding cleaned_def [symmetric]
    by (intro exI [of _ s']) (simp add: s'_def)
next
  show "viewport_query (bounds m) =
         \<lparr>table = ''parcel_info3'',
          columns = ''id, geometry, zoning, usedesc, lat, lon'',
          filters = [Gt ''lat'' (south (bounds m)), Lt ''lat'' (north (bounds m)),
                     Gt ''lon'' (west (bounds m)), Lt ''lon'' (east (bounds m))],
          limit = 300\<rparr>"
    by (rule viewport_query_eq)
next
  fix p
  show "list_all (satisfies p) (filters (viewport_query (bounds m))) =
            (\<exists>la lo. p_lat p = Some la \<and> p_lon p = Some lo
               \<and> south (bounds m) < la \<and> la < north (bounds m)
               \<and> west (bounds m) < lo \<and> lo < east (bounds m))"
    by (rule viewport_query_selects)
next
  assume d: "isDrawingRef s"
  obtain s' q where i: "fetchParcelsForView_issue s = Inr (s', q)"
    using issue_no_error [of s] assms(2) by auto
  then have "q = None" "queries s' = queries s"
    using issue_drawing_no_query [OF d i] by simp_all
  then show "\<exists>s'. fetchParcelsForView remote s = Inr s' \<and> queries s' = queries s"
    using i fetch_no_query by blast
next
  fix t :: state and mt lt and r :: Response
  assume a: "mapRef t = Some mt \<and> parcelsLayerRef t = Some lt \<and> leafletRef t \<and> error r = None"
  show "\<exists>t'. fetchParcelsForView_settle r t = Inr t'
               \<and> parcelsRef t' =
                   filter (\<lambda>p. geometry p \<noteq> None)
                     (case data r of None \<Rightarrow> [] | Some rows \<Rightarrow> rows)
               \<and> count t' = length (parcelsRef t')
               \<and> parcelsLayerRef t' =
                   Some (if zoom mt < 16 then []
                         else List.map_filter
                                (\<lambda>p. if centroid_fails (filterLatLngs t) p then None
                                     else geometry p)
                                (parcelsRef t'))
               \<and> queries t' = queries t"
    using settle_success [of t mt lt r] a by (simp add: DRAW_ZOOM_THRESHOLD_def)
qed

theorem fetchParcelsForView_fetches_witness:
  "mapRef example_state = Some (example_map 17)
   \<and> parcelsLayerRef example_state = Some [GeoJSON ''z'']
   \<and> leafletRef example_state
   \<and> 16 \<le> zoom (example_map 17)
   \<and> \<not> isDrawingRef example_state
   \<and> error (example_remote (viewport_query (bounds (example_map 17)))) = None
   \<and> (\<exists>s'. fetchParcelsForView example_remote example_state = Inr s'
          \<and> queries s' = queries example_state @ [viewport_query (bounds (example_map 17))]
          \<and> parcelsRef s' =
              filter (\<lambda>p. geometry p \<noteq> None)
                (case data (example_remote (viewport_query (bounds (example_map 17)))) of
                   None \<Rightarrow> [] | Some rows \<Rightarrow> rows)
          \<and> count s' = length (parcelsRef s')
          \<and> parcelsLayerRef s' =
              Some (List.map_filter
                      (\<lambda>p. if centroid_fails (filterLatLngs example_state) p then None
                           else geometry p)
                      (parcelsRef s'))
          \<and> redrawParcels True s' = Inr s')
   \<and> isDrawingRef (drawing_state example_points)
   \<and> (\<exists>s'. fetchParcelsForView example_remote (drawing_state example_points) = Inr s'
          \<and> queries s' = queries (drawing_state example_points))
   \<and> mapRef zoomed_out_state = Some (example_map 14)
   \<and> parcelsLayerRef zoomed_out_state = Some [GeoJSON ''z'']
   \<and> leafletRef zoomed_out_state
   \<and> error (example_remote (viewport_query example_bounds)) = None
   \<and> (\<exists>t'. fetchParcelsForView_settle (example_remote (viewport_query example_bounds))
                zoomed_out_state = Inr t'
          \<and> parcelsRef t' =
              filter (\<lambda>p. geometry p \<noteq> None)
                (case data (example_remote (viewport_query example_bounds)) of
                   None \<Rightarrow> [] | Some rows \<Rightarrow> rows)
          \<and> count t' = length (parcelsRef t')
          \<and> parcelsLayerRef t' =
              Some (if zoom (example_map 14) < 16 then []
                    else List.map_filter
                           (\<lambda>p. if centroid_fails (filterLatLngs zoomed_out_state) p then None
                                else geometry p)
                           (parcelsRef t'))
          \<and> queries t' = queries zoomed_out_state)"
proof -
  note h = example_state_fields(1-3)
  have z: "16 \<le> zoom (example_map 17)"
    by (simp add: example_map_def)
  have e: "error (example_remote (viewport_query (bounds (example_map 17)))) = None"
    by (simp add: example_remote_def)
  note d = drawing_state_fields(1-4) [of example_points]
  from fetchParcelsForView_fetches [OF h, of example_remote] z example_state_fields(5) e
  have 1: "\<exists>s'. fetchParcelsForView example_remote example_state = Inr s'
          \<and> queries s' = queries example_state @ [viewport_query (bounds (example_map 17))]
          \<and> parcelsRef s' =
              filter (\<lambda>p. geometry p \<noteq> None)
                (case data (example_remote (viewport_query (bounds (example_map 17)))) of
                   None \<Rightarrow> [] | Some rows \<Rightarrow> rows)
          \<and> count s' = length (parcelsRef s')
          \<and> parcelsLayerRef s' =
              Some (List.map_filter
                      (\<lambda>p. if centroid_fails (filterLatLngs example_state) p then None
                           else geometry p)
                      (parcelsRef s'))
          \<and> redrawParcels True s' = Inr s'"
    by blast
  from fetchParcelsForView_fetches [OF d(1-3), of example_remote] d(4)
  have 2: "\<exists>s'. fetchParcelsForView example_remote (drawing_state example_points) = Inr s'
          \<and> queries s' = queries (drawing_state example_points)"
    by blast
  have o: "mapRef zoomed_out_state = Some (example_map 14)"
    "parcelsLayerRef zoomed_out_state = Some [GeoJSON ''z'']"
    "leafletRef zoomed_out_state"
    "error (example_remote (viewport_query example_bounds)) = None"
    by (simp_all add: zoomed_out_state_def example_state_def mounted_def example_remote_def)
  from fetchParcelsForView_fetches [OF h, of example_remote] o
  have 3: "\<exists>t'. fetchParcelsForView_settle (example_remote (viewport_query example_bounds))
                zoomed_out_state = Inr t'
          \<and> parcelsRef t' =
              filter (\<lambda>p. geometry p \<noteq> None)
                (case data (example_remote (viewport_query example_bounds)) of
                   None \<Rightarrow> [] | Some rows \<Rightarrow> rows)
          \<and> count t' = length (parcelsRef t')
          \<and> parcelsLayerRef t' =
              Some (if zoom (example_map 14) < 16 then []
                    else List.map_filter
                           (\<lambda>p. if centroid_fails (filterLatLngs zoomed_out_state) p then None
                                else geometry p)
                           (parcelsRef t'))
          \<and> queries t' = queries zoomed_out_state"
    by blast
  show ?thesis
    using h z example_state_fields(5) e 1 d(4) 2 o 3 by (intro conjI)
qed

text \<open>
  Claim C3. At a zoom below 16 \<^verbatim>\<open>fetchParcelsForView\<close> ends before the request: it sets
  the zoom advisory (state variable and ref), empties the cache and the layer, sets the
  count to 0 and sends nothing to the store.
\<close>

theorem fetchParcelsForView_below_threshold:
  assumes "mapRef s = Some m" and "parcelsLayerRef s = Some layer" and "zoom m < 16"
  shows "\<exists>s'. fetchParcelsForView_issue s = Inr (s', None)
           \<and> fetchParcelsForView remote s = Inr s'
           \<and> showZoomMessage s' \<and> showZoomMessageRef s'
           \<and> parcelsRef s' = []
           \<and> parcelsLayerRef s' = Some []
           \<and> count s' = 0
           \<and> queries s' = queries s"
proof -
  have z: "zoom m < FETCH_ZOOM_THRESHOLD"
    using assms(3) by (simp add: FETCH_ZOOM_THRESHOLD_def)
  show ?thesis
    using issue_below [OF assms(1) z assms(2)] fetch_no_query by fastforce
qed

theorem fetchParcelsForView_below_threshold_witness:
  "mapRef zoomed_out_state = Some (example_map 14)
   \<and> parcelsLayerRef zoomed_out_state = Some [GeoJSON ''z'']
   \<and> zoom (example_map 14) < 16
   \<and> (\<exists>s'. fetchParcelsForView_issue zoomed_out_state = Inr (s', None)
           \<and> fetchParcelsForView example_remote zoomed_out_state = Inr s'
           \<and> showZoomMessage s' \<and> showZoomMessageRef s'
           \<and> parcelsRef s' = []
           \<and> parcelsLayerRef s' = Some []
           \<and> count s' = 0
           \<and> queries s' = queries zoomed_out_state)"
proof -
  have h: "mapRef zoomed_out_state = Some (example_map 14)"
    "parcelsLayerRef zoomed_out_state = Some [GeoJSON ''z'']"
    "zoom (example_map 14) < 16"
    by (simp_all add: zoomed_out_state_def example_state_def mounted_def example_map_def)
  show ?thesis
    using h fetchParcelsForView_below_threshold [OF h, of example_remote] by (intro conjI)
qed

text \<open>
  When the store answers with an error, \<^verbatim>\<open>fetchParcelsForView\<close> gives its message to
  \<^verbatim>\<open>setErrorMsg\<close>, empties the cache and the layer and sets the count to 0; the one
  request that was sent stays the only one, and no timer is set. The same holds when the
  answer arrives in any later state that has the layer.
\<close>

lemma fetchParcelsForView_failure:
  assumes "mapRef s = Some m" and "parcelsLayerRef s = Some layer"
    and "16 \<le> zoom m" and "\<not> isDrawingRef s"
    and "error (remote (viewport_query (bounds m))) = Some message"
  shows "(\<exists>s'. fetchParcelsForView remote s = Inr s'
            \<and> errorMsg s' = Some message
            \<and> parcelsRef s' = []
            \<and> parcelsLayerRef s' = Some []
            \<and> count s' = 0
            \<and> \<not> loading s'
            \<and> queries s' = queries s @ [viewport_query (bounds m)]
            \<and> timeout s' = timeout s)
         \<and> (\<forall>t. parcelsLayerRef t \<noteq> None \<longrightarrow>
               (\<exists>t'. fetchParcelsForView_settle (remote (viewport_query (bounds m))) t = Inr t'
                  \<and> errorMsg t' = Some message
                  \<and> parcelsRef t' = []
                  \<and> parcelsLayerRef t' = Some []
                  \<and> count t' = 0
                  \<and> \<not> loading t'
                  \<and> queries t' = queries t
                  \<and> timeout t' = timeout t))"
proof (intro conjI allI impI)
  have z: "\<not> zoom m < FETCH_ZOOM_THRESHOLD"
    using assms(3) by (simp add: FETCH_ZOOM_THRESHOLD_def)
  show "\<exists>s'. fetchParcelsForView remote s = Inr s'
            \<and> errorMsg s' = Some message
            \<and> parcelsRef s' = []
            \<and> parcelsLayerRef s' = Some []
            \<and> count s' = 0
            \<and> \<not> loading s'
            \<and> queries s' = queries s @ [viewport_query (bounds m)]
            \<and> timeout s' = timeout s"
    using fetch_failure [of s m layer remote message] assms z by simp
next
  fix t :: state
  assume "parcelsLayerRef t \<noteq> None"
  then obtain l where "parcelsLayerRef t = Some l" by auto
  then show "\<exists>t'. fetchParcelsForView_settle (remote (viewport_query (bounds m))) t = Inr t'
                  \<and> errorMsg t' = Some message
                  \<and> parcelsRef t' = []
                  \<and> parcelsLayerRef t' = Some []
                  \<and> count t' = 0
                  \<and> \<not> loading t'
                  \<and> queries t' = queries t
                  \<and> timeout t' = timeout t"
    using settle_failure [of t l "remote (viewport_query (bounds m))" message] assms(5) by simp
qed

lemma fetchParcelsForView_failure_witness:
  "mapRef example_state = Some (example_map 17)
   \<and> parcelsLayerRef example_state = Some [GeoJSON ''z'']
   \<and> 16 \<le> zoom (example_map 17)
   \<and> \<not> isDrawingRef example_state
   \<and> error (failing_remote (viewport_query (bounds (example_map 17)))) = Some ''timeout''
   \<and> (\<exists>s'. fetchParcelsForView failing_remote example_state = Inr s'
            \<and> errorMsg s' = Some ''timeout''
            \<and> parcelsRef s' = []
            \<and> parcelsLayerRef s' = Some []
            \<and> count s' = 0
            \<and> \<not> loading s'
            \<and> queries s' = queries example_state @ [viewport_query (bounds (example_map 17))]
            \<and> timeout s' = timeout example_state)
   \<and> parcelsLayerRef zoomed_out_state \<noteq> None
   \<and> (\<exists>t'. fetchParcelsForView_settle (failing_remote (viewport_query (bounds (example_map 17))))
                zoomed_out_state = Inr t'
          \<and> errorMsg t' = Some ''timeout''
          \<and> parcelsRef t' = []
          \<and> parcelsLayerRef t' = Some []
          \<and> count t' = 0
          \<and> \<not> loading t'
          \<and> queries t' = queries zoomed_out_state
          \<and> timeout t' = timeout zoomed_out_state)"
proof -
  note h = example_state_fields(1,2)
  have z: "16 \<le> zoom (example_map 17)"
    by (simp add: example_map_def)
  have e: "error (failing_remote (viewport_query (bounds (example_map 17)))) = Some ''timeout''"
    by (simp add: failing_remote_def)
  have l: "parcelsLayerRef zoomed_out_state \<noteq> None"
    by (simp add: zoomed_out_state_def example_state_def mounted_def)
  note c = fetchParcelsForView_failure
    [where remote = failing_remote, OF h z example_state_fields(5) e]
  from c have 1: "\<exists>s'. fetchParcelsForView failing_remote example_state = Inr s'
            \<and> errorMsg s' = Some ''timeout''
            \<and> parcelsRef s' = []
            \<and> parcelsLayerRef s' = Some []
            \<and> count s' = 0
            \<and> \<not> loading s'
            \<and> queries s' = queries example_state @ [viewport_query (bounds (example_map 17))]
            \<and> timeout s' = timeout example_state"
    by (rule conjunct1)
  from c l have 2: "\<exists>t'. fetchParcelsForView_settle (failing_remote (viewport_query (bounds (example_map 17))))
                zoomed_out_state = Inr t'
          \<and> errorMsg t' = Some ''timeout''
          \<and> parcelsRef t' = []
          \<and> parcelsLayerRef t' = Some []
          \<and> count t' = 0
          \<and> \<not> loading t'
          \<and> queries t' = queries zoomed_out_state
          \<and> timeout t' = timeout zoomed_out_state"
    by blast
  show ?thesis
    using h z example_state_fields(5) e 1 l 2 by (intro conjI)
qed

text \<open>
  What the component renders does not depend on \<open>errorMsg\<close>.
\<close>

lemma rendered_text_errorMsg: "rendered_text (s\<lparr>errorMsg := e\<rparr>) = rendered_text s"
  by (simp add: rendered_text_def)

text \<open>
  Claim C6. The claim fails on the code in its first part. In the example state, zoomed in
  and not drawing, the store answers the request with the error \<^verbatim>\<open>timeout\<close>.
  \<^verbatim>\<open>fetchParcelsForView\<close> empties the cache and the layer, sets the count to 0 and
  stores the message in \<open>errorMsg\<close>; but the message is not among the texts the component
  renders, which are those rendered before the failure. No element reads \<open>errorMsg\<close>, so
  this is so for every state and every message: the error is not surfaced to the user.
\<close>

theorem fetch_failure_not_rendered:
  "map_sum id errorMsg (fetchParcelsForView failing_remote example_state) = Inr (Some ''timeout'')
   \<and> map_sum id parcelsRef (fetchParcelsForView failing_remote example_state) = Inr []
   \<and> map_sum id parcelsLayerRef (fetchParcelsForView failing_remote example_state) = Inr (Some [])
   \<and> map_sum id count (fetchParcelsForView failing_remote example_state) = Inr 0
   \<and> map_sum id rendered_text (fetchParcelsForView failing_remote example_state) =
       Inr [''Delete polygon'', ''Map controls'', ''Base layer'', ''Street'', ''Satellite'']
   \<and> rendered_text example_state =
       [''Delete polygon'', ''Map controls'', ''Base layer'', ''Street'', ''Satellite'']
   \<and> ''timeout'' \<notin> set [''Delete polygon'', ''Map controls'', ''Base layer'', ''Street'',
                           ''Satellite'']
   \<and> rendered_text (s\<lparr>errorMsg := e\<rparr>) = rendered_text s"
proof -
  have z: "\<not> zoom (example_map 17) < FETCH_ZOOM_THRESHOLD"
    by (simp add: example_map_def FETCH_ZOOM_THRESHOLD_def)
  have e: "error (failing_remote (viewport_query (bounds (example_map 17)))) = Some ''timeout''"
    by (simp add: failing_remote_def)
  note f = fetch_failure
    [where remote = failing_remote, OF example_state_fields(1,2) z example_state_fields(5) e]
  have r: "rendered_text example_state =
       [''Delete polygon'', ''Map controls'', ''Base layer'', ''Street'', ''Satellite'']"
    by (simp add: rendered_text_def example_state_def mounted_def)
  have 1: "map_sum id errorMsg (fetchParcelsForView failing_remote example_state) =
             Inr (Some ''timeout'')"
    and 2: "map_sum id parcelsRef (fetchParcelsForView failing_remote example_state) = Inr []"
    and 3: "map_sum id parcelsLayerRef (fetchParcelsForView failing_remote example_state) =
             Inr (Some [])"
    and 4: "map_sum id count (fetchParcelsForView failing_remote example_state) = Inr 0"
    unfolding f by simp_all
  have 5: "map_sum id rendered_text (fetchParcelsForView failing_remote example_state) =
       Inr [''Delete polygon'', ''Map controls'', ''Base layer'', ''Street'', ''Satellite'']"
    unfolding f by (simp add: rendered_text_def example_state_def mounted_def)
  have 6: "''timeout'' \<notin> set [''Delete polygon'', ''Map controls'', ''Base layer'', ''Street'',
                           ''Satellite'']"
    by simp
  show ?thesis
    using 1 2 3 4 5 r 6 rendered_text_errorMsg by (intro conjI)
qed

section \<open>Properties of the draw controller\<close>





lemma handleDeletePolygon_eq:
  assumes "mapRef s = Some m" "parcelsLayerRef s = Some layer" "leafletRef s" "redrawParcelsRef s"
  shows "handleDeletePolygon s =
           Inr (s\<lparr>userPolygonRef := None, drawingLayerRef := None, drawPointsRef := [],
                  isDrawingRef := False, isDrawing := False,
                  hasUserPolygon := False, hasUserPolygonRef := False,
                  parcelsLayerRef :=
                    Some (if zoom m < DRAW_ZOOM_THRESHOLD then []
                          else List.map_filter geometry (parcelsRef s)),
                  drawButtonElRef := map_option (\<lambda>_. False) (drawButtonElRef s)\<rparr>)"
proof -
  define s1 where "s1 = s\<lparr>userPolygonRef := None, drawingLayerRef := None, drawPointsRef := [],
                      isDrawingRef := False, isDrawing := False,
                      hasUserPolygon := False, hasUserPolygonRef := False\<rparr>"
  have f: "filterLatLngs s1 = None"
    by (rule filterLatLngs_None) (simp add: s1_def)
  have "redrawParcels True s1 =
     Inr (s1\<lparr>parcelsLayerRef :=
            Some (if zoom m < DRAW_ZOOM_THRESHOLD then []
                  else List.map_filter
                         (\<lambda>p. if centroid_fails (filterLatLngs s1) p then None else geometry p)
                         (parcelsRef s1))\<rparr>)"
    by (rule redrawParcels_True [of s1 m layer]) (simp_all add: s1_def assms)
  then have rd: "redrawParcels True s1 =
     Inr (s1\<lparr>parcelsLayerRef :=
            Some (if zoom m < DRAW_ZOOM_THRESHOLD then []
                  else List.map_filter geometry (parcelsRef s))\<rparr>)"
    unfolding f by (simp add: s1_def)
  have "handleDeletePolygon s =
          (case redrawParcels True s1 of
             Inl e \<Rightarrow> Inl e
           | Inr s2 \<Rightarrow> Inr (case drawButtonElRef s2 of
                              None \<Rightarrow> s2
                            | Some _ \<Rightarrow> s2\<lparr>drawButtonElRef := Some False\<rparr>))"
    using assms by (simp add: handleDeletePolygon_def Let_def s1_def)
  then show ?thesis
    unfolding rd by (simp add: s1_def split: option.split)
qed

text \<open>
  Claim C8. \<^verbatim>\<open>handleDeletePolygon\<close>, in any state of the running component (so also
  with a finalized polygon or in the middle of drawing), removes the polygon and the
  preview, empties the vertex sequence and ends drawing mode, and redraws without
  filter: at a zoom of 16 or more the layer holds every cached parcel that has a
  geometry. The cache, the count, the requests sent and the timer are as before.
\<close>

theorem handleDeletePolygon_effect:
  assumes "mapRef s = Some m" and "parcelsLayerRef s = Some layer" and "leafletRef s"
    and "redrawParcelsRef s"
  shows "\<exists>s'. handleDeletePolygon s = Inr s'
           \<and> userPolygonRef s' = None \<and> drawingLayerRef s' = None \<and> drawPointsRef s' = []
           \<and> \<not> isDrawingRef s' \<and> \<not> isDrawing s'
           \<and> \<not> hasUserPolygonRef s' \<and> \<not> hasUserPolygon s'
           \<and> filterLatLngs s' = None
           \<and> parcelsLayerRef s' =
               Some (if zoom m < 16 then [] else List.map_filter geometry (parcelsRef s))
           \<and> parcelsRef s' = parcelsRef s
           \<and> count s' = count s
           \<and> queries s' = queries s
           \<and> timeout s' = timeout s"
  using handleDeletePolygon_eq [OF assms]
  by (simp add: filterLatLngs_def DRAW_ZOOM_THRESHOLD_def)

theorem handleDeletePolygon_effect_witness:
  "mapRef example_state = Some (example_map 17)
   \<and> parcelsLayerRef example_state = Some [GeoJSON ''z'']
   \<and> leafletRef example_state
   \<and> redrawParcelsRef example_state
   \<and> (\<exists>s'. handleDeletePolygon example_state = Inr s'
           \<and> userPolygonRef s' = None \<and> drawingLayerRef s' = None \<and> drawPointsRef s' = []
           \<and> \<not> isDrawingRef s' \<and> \<not> isDrawing s'
           \<and> \<not> hasUserPolygonRef s' \<and> \<not> hasUserPolygon s'
           \<and> filterLatLngs s' = None
           \<and> parcelsLayerRef s' =
               Some (if zoom (example_map 17) < 16 then []
                     else List.map_filter geometry (parcelsRef example_state))
           \<and> parcelsRef s' = parcelsRef example_state
           \<and> count s' = count example_state
           \<and> queries s' = queries example_state
           \<and> timeout s' = timeout example_state)"
proof -
  note h = example_state_fields(1-4)
  show ?thesis
    using h handleDeletePolygon_effect [OF h] by (intro conjI)
qed

section \<open>What holds in every reachable state\<close>

lemma invariant_redrawParcels:
  assumes "invariant s" "redrawParcels L s = Inr s'"
  shows "invariant s'"
proof -
  obtain l where l: "s' = s\<lparr>parcelsLayerRef := l\<rparr>"
    using redrawParcels_frame [OF assms(2)] by blast
  have "parcelsLayerRef s' \<noteq> None"
    using redrawParcels_keeps_layer [OF assms(2)] assms(1) by (simp add: invariant_def refs_set_def)
  with assms(1) l show ?thesis
    by (simp add: invariant_def refs_set_def polygon_ok_def)
qed

lemma invariant_issue:
  assumes "invariant s" "fetchParcelsForView_issue s = Inr (s', q)"
  shows "invariant s'"
  using assms
  by (auto simp: fetchParcelsForView_issue_def updateDrawButtonState_eq Let_def invariant_def
      refs_set_def polygon_ok_def split: option.splits if_splits)

lemma invariant_settle:
  assumes "invariant s" "fetchParcelsForView_settle r s = Inr s'"
  shows "invariant s'"
proof (cases "error r")
  case (Some message)
  with assms show ?thesis
    by (auto simp: fetchParcelsForView_settle_def Let_def invariant_def refs_set_def polygon_ok_def
        split: option.splits)
next
  case None
  let ?cleaned = "filter (\<lambda>p. geometry p \<noteq> None) (case data r of None \<Rightarrow> [] | Some rows \<Rightarrow> rows)"
  let ?s1 = "s\<lparr>parcelsRef := ?cleaned, count := length ?cleaned\<rparr>"
  from None assms(2) obtain s2 where s2: "redrawParcels (leafletRef ?s1) ?s1 = Inr s2"
    and s': "s' = s2\<lparr>loading := False\<rparr>"
    by (auto simp: fetchParcelsForView_settle_def Let_def split: sum.splits)
  have "invariant ?s1"
    using assms(1) by (simp add: invariant_def refs_set_def polygon_ok_def)
  then have "invariant s2"
    using s2 by (rule invariant_redrawParcels)
  then show ?thesis
    by (simp add: s' invariant_def refs_set_def polygon_ok_def)
qed

lemma invariant_finishDrawing:
  assumes "refs_set s" "count s = length (parcelsRef s)" "polygon_ok s"
    and "length (drawPointsRef s) < 4 \<or> isDrawingRef s"
    and "finishDrawing s = Inr s'"
  shows "invariant s'"
proof (cases "isDrawingRef s \<and> leafletRef s \<and> length (drawPointsRef s) \<ge> 3 \<and> mapRef s \<noteq> None")
  case False
  with assms show ?thesis
    by (auto simp: finishDrawing_def updateDrawButtonState_eq Let_def invariant_def refs_set_def
        polygon_ok_def split: option.splits if_splits)
next
  case True
  then obtain m where m: "mapRef s = Some m" by auto
  define s3 where "s3 =
     (let s1 = updateDrawButtonState
                        (s\<lparr>isDrawingRef := False, isDrawing := False,
                           mapRef := Some (m\<lparr>cursor := []\<rparr>)\<rparr>);
          finalPoints =
                         (if length (drawPointsRef s1) > 4 then take 4 (drawPointsRef s1)
                          else drawPointsRef s1);
                       s2 = updateDrawButtonState
                              (s1\<lparr>userPolygonRef := Some (L_polygon finalPoints),
                                  hasUserPolygon := True, hasUserPolygonRef := True\<rparr>)
      in s2\<lparr>drawingLayerRef := None, drawPointsRef := []\<rparr>)"
  have fin: "finishDrawing s = redrawParcels True s3"
    using True m by (simp add: finishDrawing_def s3_def Let_def updateDrawButtonState_eq)
  have "2 \<le> length (convertLatLngs ps) \<and> length (convertLatLngs ps) \<le> 4"
    if "3 \<le> length ps" "length ps \<le> 4" for ps :: "LatLng list"
    using that length_convertLatLngs [of ps] by linarith
  then have "invariant s3"
    using assms(1,2,3) True
    by (auto simp: s3_def Let_def updateDrawButtonState_eq invariant_def refs_set_def
        polygon_ok_def L_polygon_def)
  then show ?thesis
    using assms(5) fin invariant_redrawParcels by simp
qed

lemma finishDrawing_no_error:
  assumes "refs_set s"
  shows "\<exists>s'. finishDrawing s = Inr s'"
  using assms
  by (auto simp: finishDrawing_def Let_def updateDrawButtonState_eq refs_set_def
      intro!: redrawParcels_no_error)

lemma invariant_on_click:
  assumes "invariant s" "on_click latlng s = Inr s'"
  shows "invariant s'"
proof (cases "isDrawingRef s \<and> leafletRef s")
  case False
  with assms show ?thesis by (auto simp: on_click_def)
next
  case True
  define s1 where "s1 = s\<lparr>drawPointsRef := drawPointsRef s @ [latlng],
                    drawingLayerRef :=
                      (case drawingLayerRef s of
                         Some shape \<Rightarrow> Some (setLatLngs (drawPointsRef s @ [latlng]) shape)
                       | None \<Rightarrow> Some (L_polygon (drawPointsRef s @ [latlng])))\<rparr>"
  have eq: "on_click latlng s = (if length (drawPointsRef s1) \<ge> 4 then finishDrawing s1 else Inr s1)"
    using True by (simp add: on_click_def s1_def Let_def)
  have base: "refs_set s1" "count s1 = length (parcelsRef s1)" "polygon_ok s1" "isDrawingRef s1"
    using assms(1) True by (simp_all add: s1_def invariant_def refs_set_def polygon_ok_def)
  show ?thesis
  proof (cases "length (drawPointsRef s1) \<ge> 4")
    case True
    with eq assms(2) have "finishDrawing s1 = Inr s'" by simp
    with base show ?thesis by (intro invariant_finishDrawing [of s1]) simp_all
  next
    case False
    with eq assms(2) have "s' = s1" by simp
    with base False show ?thesis by (simp add: invariant_def)
  qed
qed

lemma on_click_no_error:
  assumes "refs_set s"
  shows "\<exists>s'. on_click latlng s = Inr s'"
proof -
  have "\<exists>s'. finishDrawing s1 = Inr s'" if "refs_set s1" for s1
    using that by (rule finishDrawing_no_error)
  moreover have "refs_set (s\<lparr>drawPointsRef := ps, drawingLayerRef := d\<rparr>)" for ps d
    using assms by (simp add: refs_set_def)
  ultimately show ?thesis
    by (simp add: on_click_def Let_def)
qed

lemma invariant_on_dblclick:
  assumes "invariant s" "on_dblclick s = Inr s'"
  shows "invariant s'"
  using assms invariant_finishDrawing [of s s']
  by (auto simp: on_dblclick_def invariant_def split: if_splits)

lemma invariant_startDrawing: "invariant s \<Longrightarrow> invariant (startDrawing s)"
  by (auto simp: startDrawing_def updateDrawButtonState_eq invariant_def refs_set_def
      polygon_ok_def split: option.splits)

lemma invariant_on_moveend: "invariant s \<Longrightarrow> invariant (on_moveend s)"
  by (simp add: on_moveend_def invariant_def refs_set_def polygon_ok_def)

lemma invariant_set_view: "invariant s \<Longrightarrow> invariant (set_view z b s)"
  by (simp add: set_view_def invariant_def refs_set_def polygon_ok_def)

lemma invariant_on_timeout:
  assumes "invariant s" "on_timeout s = Inr (s', q)"
  shows "invariant s'"
proof -
  have "invariant (s\<lparr>timeout := False\<rparr>)"
    using assms(1) by (simp add: invariant_def refs_set_def polygon_ok_def)
  then show ?thesis
    using assms(2) invariant_issue by (simp add: on_timeout_def)
qed

lemma invariant_on_zoomend:
  assumes "invariant s" "on_zoomend s = Inr (s', q)"
  shows "invariant s'"
proof -
  obtain m where m: "mapRef s = Some m"
    using assms(1) by (auto simp: invariant_def refs_set_def)
  show ?thesis
  proof (cases "zoom m < FETCH_ZOOM_THRESHOLD")
    case True
    with assms m show ?thesis
      by (auto simp: on_zoomend_def Let_def updateDrawButtonState_eq invariant_def refs_set_def
          polygon_ok_def split: option.splits)
  next
    case False
    let ?s1 = "updateDrawButtonState (s\<lparr>showZoomMessage := False, showZoomMessageRef := False\<rparr>)"
    have "invariant ?s1"
      using assms(1)
      by (auto simp: updateDrawButtonState_eq invariant_def refs_set_def polygon_ok_def)
    moreover have "fetchParcelsForView_issue ?s1 = Inr (s', q)"
      using False assms(2) m by (simp add: on_zoomend_def Let_def)
    ultimately show ?thesis by (rule invariant_issue)
  qed
qed

lemma on_zoomend_no_error:
  assumes "refs_set s"
  shows "\<exists>s' q. on_zoomend s = Inr (s', q)"
  using assms
  by (auto simp: on_zoomend_def Let_def updateDrawButtonState_eq refs_set_def
      intro!: issue_no_error)

lemma invariant_handleDeletePolygon:
  assumes "invariant s" "handleDeletePolygon s = Inr s'"
  shows "invariant s'"
proof -
  define s1 where "s1 = s\<lparr>userPolygonRef := None, drawingLayerRef := None, drawPointsRef := [],
                      isDrawingRef := False, isDrawing := False,
                      hasUserPolygon := False, hasUserPolygonRef := False\<rparr>"
  have s1: "invariant s1"
    using assms(1) by (simp add: s1_def invariant_def refs_set_def polygon_ok_def)
  obtain s2 where s2: "redrawParcels True s1 = Inr s2"
    and s': "s' = (case drawButtonElRef s2 of None \<Rightarrow> s2
                   | Some _ \<Rightarrow> s2\<lparr>drawButtonElRef := Some False\<rparr>)"
    using assms
    by (auto simp: handleDeletePolygon_def Let_def s1_def invariant_def refs_set_def
        split: sum.splits)
  have "invariant s2"
    using s1 s2 by (rule invariant_redrawParcels)
  then show ?thesis
    by (auto simp: s' invariant_def refs_set_def polygon_ok_def split: option.splits)
qed

lemma handleDeletePolygon_no_error:
  assumes "refs_set s"
  shows "\<exists>s'. handleDeletePolygon s = Inr s'"
proof -
  obtain s2 where "redrawParcels True
      (s\<lparr>userPolygonRef := None, drawingLayerRef := None, drawPointsRef := [],
         isDrawingRef := False, isDrawing := False,
         hasUserPolygon := False, hasUserPolygonRef := False\<rparr>) = Inr s2"
    using assms redrawParcels_no_error
      [of "s\<lparr>userPolygonRef := None, drawingLayerRef := None, drawPointsRef := [],
         isDrawingRef := False, isDrawing := False,
         hasUserPolygon := False, hasUserPolygonRef := False\<rparr>"]
    by (auto simp: refs_set_def)
  then show ?thesis
    using assms by (auto simp: handleDeletePolygon_def Let_def refs_set_def)
qed

lemma invariant_listening [simp]: "invariant (s\<lparr>listening := a\<rparr>) = invariant s"
  by (simp add: invariant_def refs_set_def polygon_ok_def)

lemma invariant_inflight [simp]: "invariant (s\<lparr>inflight := n\<rparr>) = invariant s"
  by (simp add: invariant_def refs_set_def polygon_ok_def)

lemma invariant_sent [simp]: "invariant (sent (s, q)) = invariant s"
  by (simp add: sent_def split: option.split)

lemma refs_set_inflight [simp]: "refs_set (s\<lparr>inflight := n\<rparr>) = refs_set s"
  by (simp add: refs_set_def)

lemma invariant_fire:
  assumes "invariant s" "fire e s = Inr s'"
  shows "invariant s'"
proof (cases e)
  case (Click latlng)
  with assms show ?thesis using invariant_on_click by simp
next
  case DblClick
  with assms show ?thesis using invariant_on_dblclick by simp
next
  case DrawLinkClick
  with assms show ?thesis using invariant_startDrawing by auto
next
  case MoveEnd
  with assms show ?thesis using invariant_on_moveend by (auto split: if_splits)
next
  case Timeout
  show ?thesis
  proof (cases "timeout s")
    case True
    with Timeout assms(2) obtain t q where "on_timeout s = Inr (t, q)" "s' = sent (t, q)"
      by (cases "on_timeout s") auto
    with assms(1) show ?thesis using invariant_on_timeout by simp
  next
    case False
    with Timeout assms show ?thesis by simp
  qed
next
  case ZoomEnd
  show ?thesis
  proof (cases "listening s")
    case True
    with ZoomEnd assms(2) obtain t q where "on_zoomend s = Inr (t, q)" "s' = sent (t, q)"
      by (cases "on_zoomend s") auto
    with assms(1) show ?thesis using invariant_on_zoomend by simp
  next
    case False
    with ZoomEnd assms show ?thesis by simp
  qed
next
  case DeleteClick
  with assms show ?thesis using invariant_handleDeletePolygon by (auto split: if_splits)
next
  case (Settled r)
  show ?thesis
  proof (cases "inflight s = 0")
    case True
    with Settled assms show ?thesis by simp
  next
    case False
    with Settled assms(2) obtain t
      where "fetchParcelsForView_settle r (s\<lparr>inflight := inflight s - 1\<rparr>) = Inr t"
        and "s' = t\<lparr>listening := True\<rparr>"
      by (cases "fetchParcelsForView_settle r (s\<lparr>inflight := inflight s - 1\<rparr>)") auto
    with assms(1) show ?thesis
      using invariant_settle [of "s\<lparr>inflight := inflight s - 1\<rparr>" r t] by simp
  qed
next
  case (ViewChanged z b)
  with assms show ?thesis using invariant_set_view by auto
qed

lemma invariant_mounted: "invariant (mounted b)"
  by (simp add: invariant_def refs_set_def polygon_ok_def mounted_def)

lemma reachable_invariant: "reachable s \<Longrightarrow> invariant s"
proof (induction rule: reachable.induct)
  case (start b s q)
  then show ?case using invariant_issue [OF invariant_mounted] by simp
next
  case (step s e s')
  then show ?case using invariant_fire by blast
qed

lemma fire_no_error:
  assumes "refs_set s"
  shows "\<exists>s'. fire e s = Inr s'"
proof (cases e)
  case (Click latlng)
  then show ?thesis using on_click_no_error [OF assms] by simp
next
  case DblClick
  then show ?thesis using finishDrawing_no_error [OF assms] by (simp add: on_dblclick_def)
next
  case Timeout
  have "parcelsLayerRef (s\<lparr>timeout := False\<rparr>) \<noteq> None" using assms by (simp add: refs_set_def)
  then obtain s' q where "fetchParcelsForView_issue (s\<lparr>timeout := False\<rparr>) = Inr (s', q)"
    using issue_no_error by blast
  with Timeout show ?thesis by (simp add: on_timeout_def)
next
  case ZoomEnd
  obtain s' q where "on_zoomend s = Inr (s', q)"
    using on_zoomend_no_error [OF assms] by blast
  with ZoomEnd show ?thesis by simp
next
  case DeleteClick
  then show ?thesis using handleDeletePolygon_no_error [OF assms] by simp
next
  case (Settled r)
  have "refs_set (s\<lparr>inflight := inflight s - 1\<rparr>)"
    using assms by simp
  then obtain s' where "fetchParcelsForView_settle r (s\<lparr>inflight := inflight s - 1\<rparr>) = Inr s'"
    using settle_no_error by blast
  with Settled show ?thesis by simp
qed simp_all

lemma reachable_no_error:
  assumes "reachable s"
  shows "\<exists>s'. fire e s = Inr s'"
  using reachable_invariant [OF assms] fire_no_error by (simp add: invariant_def)

lemma issue_mounted:
  "fetchParcelsForView_issue (mounted b) =
     Inr ((started b)\<lparr>inflight := 0\<rparr>, Some (viewport_query b))"
proof -
  have "fetchParcelsForView_issue (mounted b) =
           Inr ((mounted b)\<lparr>showZoomMessage := False, showZoomMessageRef := False,
                  drawButtonElRef :=
                    map_option (\<lambda>_. hasUserPolygonRef (mounted b)) (drawButtonElRef (mounted b)),
                  loading := True, errorMsg := None,
                  queries := queries (mounted b) @ [viewport_query (bounds \<lparr>zoom = 16, bounds = b, cursor = []\<rparr>)]\<rparr>,
                Some (viewport_query (bounds \<lparr>zoom = 16, bounds = b, cursor = []\<rparr>)))"
    by (rule issue_idle) (simp_all add: mounted_def FETCH_ZOOM_THRESHOLD_def)
  then show ?thesis
    by (simp add: started_def mounted_def)
qed

lemma reachable_started: "reachable (started b)"
proof -
  have "reachable ((sent ((started b)\<lparr>inflight := 0\<rparr>, Some (viewport_query b)))
                    \<lparr>listening := (Some (viewport_query b) = None)\<rparr>)"
    using issue_mounted by (rule reachable.start)
  then show ?thesis
    by (simp add: sent_def started_def mounted_def)
qed

lemma reachable_after: "reachable s \<Longrightarrow> reachable (after e s)"
  by (cases "fire e s") (auto simp: after_def intro: reachable.step)

lemma reachable_drawn: "reachable drawn_state"
  unfolding drawn_state_def by (intro reachable_after reachable_started)






text \<open>
  Claim C10. The count shown equals the length of the cache in every reachable state.
  In particular the continuation of a fetch always leaves them equal, whether the store
  failed or not, and the first part of a fetch either empties both or touches neither.
\<close>

theorem count_matches_cache:
  "(reachable s \<longrightarrow> count s = length (parcelsRef s))
   \<and> (fetchParcelsForView_settle r t = Inr t' \<longrightarrow> count t' = length (parcelsRef t'))
   \<and> (fetchParcelsForView_issue v = Inr (u, q) \<longrightarrow>
        parcelsRef u = [] \<and> count u = 0 \<or> parcelsRef u = parcelsRef v \<and> count u = count v)"
  using reachable_invariant [of s] settle_count [of r t t'] issue_count [of v u q]
  by (simp add: invariant_def)

theorem count_matches_cache_witness:
  "reachable drawn_state
   \<and> count drawn_state = length (parcelsRef drawn_state)
   \<and> fetchParcelsForView_settle (failing_remote (viewport_query example_bounds)) example_state =
       Inr (example_state\<lparr>errorMsg := Some ''timeout'', parcelsRef := [],
              parcelsLayerRef := Some [], count := 0, loading := False\<rparr>)
   \<and> count (example_state\<lparr>errorMsg := Some ''timeout'', parcelsRef := [],
              parcelsLayerRef := Some [], count := 0, loading := False\<rparr>) =
       length (parcelsRef (example_state\<lparr>errorMsg := Some ''timeout'', parcelsRef := [],
              parcelsLayerRef := Some [], count := 0, loading := False\<rparr>))
   \<and> fetchParcelsForView_issue zoomed_out_state =
       Inr (zoomed_out_state\<lparr>showZoomMessage := True, showZoomMessageRef := True,
              parcelsRef := [], parcelsLayerRef := Some [], count := 0,
              drawButtonElRef := map_option (\<lambda>_. True) (drawButtonElRef zoomed_out_state)\<rparr>,
            None)
   \<and> (parcelsRef (zoomed_out_state\<lparr>showZoomMessage := True, showZoomMessageRef := True,
              parcelsRef := [], parcelsLayerRef := Some [], count := 0,
              drawButtonElRef := map_option (\<lambda>_. True) (drawButtonElRef zoomed_out_state)\<rparr>) = []
        \<and> count (zoomed_out_state\<lparr>showZoomMessage := True, showZoomMessageRef := True,
              parcelsRef := [], parcelsLayerRef := Some [], count := 0,
              drawButtonElRef := map_option (\<lambda>_. True) (drawButtonElRef zoomed_out_state)\<rparr>) = 0
      \<or> parcelsRef (zoomed_out_state\<lparr>showZoomMessage := True, showZoomMessageRef := True,
              parcelsRef := [], parcelsLayerRef := Some [], count := 0,
              drawButtonElRef := map_option (\<lambda>_. True) (drawButtonElRef zoomed_out_state)\<rparr>) =
          parcelsRef zoomed_out_state
        \<and> count (zoomed_out_state\<lparr>showZoomMessage := True, showZoomMessageRef := True,
              parcelsRef := [], parcelsLayerRef := Some [], count := 0,
              drawButtonElRef := map_option (\<lambda>_. True) (drawButtonElRef zoomed_out_state)\<rparr>) =
          count zoomed_out_state)"
proof -
  let ?t' = "example_state\<lparr>errorMsg := Some ''timeout'', parcelsRef := [],
              parcelsLayerRef := Some [], count := 0, loading := False\<rparr>"
  let ?u = "zoomed_out_state\<lparr>showZoomMessage := True, showZoomMessageRef := True,
              parcelsRef := [], parcelsLayerRef := Some [], count := 0,
              drawButtonElRef := map_option (\<lambda>_. True) (drawButtonElRef zoomed_out_state)\<rparr>"
  have st: "fetchParcelsForView_settle (failing_remote (viewport_query example_bounds))
              example_state = Inr ?t'"
    by (rule settle_failure [OF example_state_fields(2)]) (simp add: failing_remote_def)
  have iss: "fetchParcelsForView_issue zoomed_out_state = Inr (?u, None)"
    by (rule issue_below [of _ "example_map 14" "[GeoJSON ''z'']"])
       (simp_all add: zoomed_out_state_def example_state_def mounted_def example_map_def
          FETCH_ZOOM_THRESHOLD_def)
  note c = count_matches_cache
    [of drawn_state "failing_remote (viewport_query example_bounds)" example_state ?t'
        zoomed_out_state ?u None]
  from c reachable_drawn have 1: "count drawn_state = length (parcelsRef drawn_state)"
    by blast
  from c st have 2: "count ?t' = length (parcelsRef ?t')"
    by blast
  from c iss have 3: "parcelsRef ?u = [] \<and> count ?u = 0
      \<or> parcelsRef ?u = parcelsRef zoomed_out_state \<and> count ?u = count zoomed_out_state"
    by blast
  show ?thesis
    using reachable_drawn 1 st 2 iss 3 by (intro conjI)
qed




section \<open>Zooming out below the threshold\<close>








end
